theory Spec2Isabelle
  imports Main "HOL-Library.Sublist" "HOL-Library.AList"
begin

section \<open>JavaScript values, objects and strings\<close>

text \<open>
  The table component works on host objects by reference: rows are keys of a
  \<^verbatim>\<open>Map\<close>, columns are compared property by property with \<^verbatim>\<open>!==\<close>, and
  \<^verbatim>\<open>saveElement\<close> copies a row before writing to it. Values are therefore primitives,
  function identities or references into a heap of objects. Numbers are integers
  (row indices, column indices, time values); \<^verbatim>\<open>NaN\<close> and fractions are not modelled.
  Equality of \<open>val\<close> is JavaScript's strict equality on these values.
\<close>

type_synonym addr = nat

datatype val =
  Undefined | Null | Bool bool | Num int | Str string | Fun nat | Ref addr

text \<open>
  An object is a date (its time value), an array, or an object with its own enumerable
  properties, in the order in which \<^verbatim>\<open>for ... in\<close> visits them. The properties are data
  properties that can be written, of objects that can be extended; accessors are not
  modelled. The members that an object inherits from its class and from
  \<^verbatim>\<open>Object.prototype\<close> belong to the environment below.
\<close>

datatype obj =
  DateObj int | ArrayObj "val list" | PlainObj "(string \<times> val) list"

type_synonym heap = "obj list"

text \<open>
  \<open>Unsupported\<close> marks the places where the model declines to say what JavaScript
  does (a dangling address, a string coercion of an object); it is never the outcome
  the theorems below rely on.
\<close>

datatype error = TypeError | RangeError | Error string | Unsupported

text \<open>
  The code of the host and of the libraries that the component calls is a parameter
  of the model. Functions are identified by a number.

  \<^item> \<open>call\<close>: the host callbacks (\<^verbatim>\<open>transform\<close>, \<^verbatim>\<open>init\<close>, \<^verbatim>\<open>apply\<close>); a callback reads
    the heap and its arguments and returns a value or throws. It does not write to the
    heap, and its result does not depend on its receiver.
  \<^item> \<open>construct\<close>: what \<^verbatim>\<open>new f()\<close> gives for a function: the error it throws, or the
    own properties of the new object it makes (none for \<^verbatim>\<open>Object\<close>).
  \<^item> \<open>inherited\<close>: what reading a name gives that is not an own property of the object
    at an address: the method or the value that the object inherits under this name,
    or \<^verbatim>\<open>undefined\<close> if there is none.
  \<^item> \<open>enumerable\<close>: the enumerable names that the object at an address inherits, which
    \<^verbatim>\<open>for ... in\<close> visits after the own properties.
  \<^item> \<open>objectHasOwnProperty\<close>: the number of the function
    \<^verbatim>\<open>Object.prototype.hasOwnProperty\<close>.
  \<^item> \<open>fb_control\<close>: the value and the validity of the control that
    \<^verbatim>\<open>FormBuilder.control(formState)\<close> of the forms library makes.
  \<^item> \<open>trim\<close> and \<open>toLowerCase\<close>: the methods of \<^verbatim>\<open>String.prototype\<close>.
\<close>

record env =
  call :: "nat \<Rightarrow> heap \<Rightarrow> val list \<Rightarrow> error + val"
  construct :: "nat \<Rightarrow> error + (string \<times> val) list"
  inherited :: "addr \<Rightarrow> string \<Rightarrow> error + val"
  enumerable :: "addr \<Rightarrow> string list"
  objectHasOwnProperty :: nat
  fb_control :: "heap \<Rightarrow> val \<Rightarrow> val \<times> bool"
  trim :: "string \<Rightarrow> string"
  toLowerCase :: "string \<Rightarrow> string"

fun truthy :: "val \<Rightarrow> bool" where
  "truthy Undefined = False"
| "truthy Null = False"
| "truthy (Bool b) = b"
| "truthy (Num n) = (n \<noteq> 0)"
| "truthy (Str s) = (s \<noteq> [])"
| "truthy (Fun f) = True"
| "truthy (Ref a) = True"

text \<open>\<^verbatim>\<open>o[k]\<close> on own properties: \<^verbatim>\<open>undefined\<close> when the property is absent.\<close>

definition getv :: "(string \<times> val) list \<Rightarrow> string \<Rightarrow> val" where
  "getv ps k = (case map_of ps k of None \<Rightarrow> Undefined | Some v \<Rightarrow> v)"

section \<open>Strings and arrays of the host language\<close>

text \<open>
  Strings are lists of characters. Row and column indices are indices of arrays,
  natural numbers whose \<^verbatim>\<open>toString\<close> is the decimal numeral; so is the \<^verbatim>\<open>toString\<close>
  of an integer between \<open>-(2^53 - 1)\<close> and \<open>2^53 - 1\<close>, the integers that a JavaScript
  number holds exactly. The \<^verbatim>\<open>toString\<close> of other numbers is left out of the model.
\<close>

definition digit_char :: "nat \<Rightarrow> char" where
  "digit_char d = ''0123456789'' ! (d mod 10)"

fun toString_nat :: "nat \<Rightarrow> string" where
  "toString_nat n =
     (if n < 10 then [digit_char n] else toString_nat (n div 10) @ [digit_char (n mod 10)])"

declare toString_nat.simps [simp del]

definition isSafeInteger :: "int \<Rightarrow> bool" where
  "isSafeInteger i = (- 9007199254740991 \<le> i \<and> i \<le> 9007199254740991)"

definition toString_int :: "int \<Rightarrow> error + string" where
  "toString_int i =
     (if \<not> isSafeInteger i then Inl Unsupported
      else if i < 0 then Inr (CHR ''-'' # toString_nat (nat (- i)))
      else Inr (toString_nat (nat i)))"

text \<open>\<^verbatim>\<open>s.startsWith(p)\<close>.\<close>

definition startsWith :: "string \<Rightarrow> string \<Rightarrow> bool" where
  "startsWith s p = prefix p s"


text \<open>\<^verbatim>\<open>s.split(sep)\<close> for a separator of one character.\<close>

fun splitStr :: "char \<Rightarrow> string \<Rightarrow> string list" where
  "splitStr sep [] = [[]]"
| "splitStr sep (c # cs) =
     (if c = sep then [] # splitStr sep cs
      else (case splitStr sep cs of [] \<Rightarrow> [[c]] | seg # segs \<Rightarrow> (c # seg) # segs))"

text \<open>
  Unary \<^verbatim>\<open>+\<close> on a string of decimal digits (the empty string is \<open>0\<close>); other
  strings are not covered.
\<close>

definition isDigit :: "char \<Rightarrow> bool" where
  "isDigit c = (c \<in> set ''0123456789'')"

definition digit_val :: "char \<Rightarrow> nat" where
  "digit_val c = length (takeWhile (\<lambda>d. d \<noteq> c) ''0123456789'')"

definition toNumber :: "string \<Rightarrow> nat option" where
  "toNumber s = (if list_all isDigit s then Some (fold (\<lambda>c n. 10 * n + digit_val c) s 0) else None)"

text \<open>\<^verbatim>\<open>arr.indexOf(x)\<close> with strict equality, and \<^verbatim>\<open>arr.splice(start, 1)\<close>, which counts a
  negative \<open>start\<close> from the end of the array.\<close>

fun arr_indexOf :: "'a list \<Rightarrow> 'a \<Rightarrow> int" where
  "arr_indexOf [] x = - 1"
| "arr_indexOf (y # ys) x =
     (if y = x then 0 else (let r = arr_indexOf ys x in if r < 0 then - 1 else r + 1))"

definition splice1 :: "int \<Rightarrow> 'a list \<Rightarrow> 'a list" where
  "splice1 start xs =
     (let len = int (length xs);
          s = (if start < 0 then max (len + start) 0 else min start len)
      in take (nat s) xs @ drop (nat s + 1) xs)"

text \<open>String coercion (\<^verbatim>\<open>'' + v\<close>) and the method call \<^verbatim>\<open>v.toString()\<close> on primitives.\<close>

fun toStringCoerce :: "val \<Rightarrow> error + string" where
  "toStringCoerce Undefined = Inr ''undefined''"
| "toStringCoerce Null = Inr ''null''"
| "toStringCoerce (Bool b) = Inr (if b then ''true'' else ''false'')"
| "toStringCoerce (Num n) = toString_int n"
| "toStringCoerce (Str s) = Inr s"
| "toStringCoerce (Fun f) = Inl Unsupported"
| "toStringCoerce (Ref a) = Inl Unsupported"

fun toStringMethod :: "val \<Rightarrow> error + val" where
  "toStringMethod Undefined = Inl TypeError"
| "toStringMethod Null = Inl TypeError"
| "toStringMethod v = (case toStringCoerce v of Inl e \<Rightarrow> Inl e | Inr s \<Rightarrow> Inr (Str s))"


section \<open>Reading and writing the heap\<close>

definition bindE :: "error + 'a \<Rightarrow> ('a \<Rightarrow> error + 'b) \<Rightarrow> error + 'b" where
  "bindE m f = (case m of Inl e \<Rightarrow> Inl e | Inr x \<Rightarrow> f x)"

text \<open>
  \<^verbatim>\<open>o[k]\<close> and \<^verbatim>\<open>o[k] = v\<close> for a property name \<open>k\<close>. Reading or writing a property of
  \<^verbatim>\<open>undefined\<close> or \<^verbatim>\<open>null\<close> throws. Of a plain object, an own property is read from the
  object and any other name from what the object inherits; a write makes or changes an
  own property. Writing \<^verbatim>\<open>__proto__\<close>, and properties of anything else, are left out
  of the model.
\<close>

definition getProp :: "env \<Rightarrow> heap \<Rightarrow> val \<Rightarrow> val \<Rightarrow> error + val" where
  "getProp fe h ob k =
     (case ob of
        Undefined \<Rightarrow> Inl TypeError
      | Null \<Rightarrow> Inl TypeError
      | Ref a \<Rightarrow>
          (if a < length h then
             (case (h ! a, k) of
                (PlainObj ps, Str p) \<Rightarrow>
                  (if p \<in> set (map fst ps) then Inr (getv ps p) else inherited fe a p)
              | _ \<Rightarrow> Inl Unsupported)
           else Inl Unsupported)
      | _ \<Rightarrow> Inl Unsupported)"

definition setProp :: "heap \<Rightarrow> val \<Rightarrow> val \<Rightarrow> val \<Rightarrow> error + heap" where
  "setProp h ob k v =
     (case ob of
        Undefined \<Rightarrow> Inl TypeError
      | Null \<Rightarrow> Inl TypeError
      | Ref a \<Rightarrow>
          (if a < length h then
             (case (h ! a, k) of
                (PlainObj ps, Str p) \<Rightarrow>
                  (if p = ''__proto__'' then Inl Unsupported
                   else Inr (h[a := PlainObj (AList.update p v ps)]))
              | _ \<Rightarrow> Inl Unsupported)
           else Inl Unsupported)
      | _ \<Rightarrow> Inl Unsupported)"

text \<open>The contents of an array, for its methods (\<^verbatim>\<open>forEach\<close>, \<^verbatim>\<open>splice\<close>, \<^verbatim>\<open>unshift\<close>, ...),
  and their replacement in place.\<close>

definition getArray :: "heap \<Rightarrow> val \<Rightarrow> error + val list" where
  "getArray h ob =
     (case ob of
        Undefined \<Rightarrow> Inl TypeError
      | Null \<Rightarrow> Inl TypeError
      | Ref a \<Rightarrow>
          (if a < length h then
             (case h ! a of ArrayObj xs \<Rightarrow> Inr xs | _ \<Rightarrow> Inl Unsupported)
           else Inl Unsupported)
      | _ \<Rightarrow> Inl Unsupported)"

definition setArray :: "heap \<Rightarrow> val \<Rightarrow> val list \<Rightarrow> heap" where
  "setArray h ob xs = (case ob of Ref a \<Rightarrow> h[a := ArrayObj xs] | _ \<Rightarrow> h)"

text \<open>A call \<^verbatim>\<open>f(args)\<close>: a \<^verbatim>\<open>TypeError\<close> unless \<open>f\<close> is a function.\<close>

definition callFn :: "env \<Rightarrow> heap \<Rightarrow> val \<Rightarrow> val list \<Rightarrow> error + val" where
  "callFn fe h f args = (case f of Fun n \<Rightarrow> call fe n h args | _ \<Rightarrow> Inl TypeError)"

section \<open>The table component (simplemattable.component.ts)\<close>

text \<open>
  A column is a host object, read here through its properties (\<^verbatim>\<open>property\<close>,
  \<^verbatim>\<open>visible\<close>, \<^verbatim>\<open>transform\<close>, \<^verbatim>\<open>formField\<close>, ...). The component never writes to a
  column, so \<open>columns\<close> holds the properties the column objects have when a method
  runs, and \<open>oldColumns\<close> the copies made by \<^verbatim>\<open>Object.assign({}, col)\<close>.
\<close>

type_synonym column = "(string \<times> val) list"

text \<open>
  Modelled from the spec: the class \<^verbatim>\<open>DataStatus\<close> (data-status.model.ts) is not
  among the sources. The spec has the component track a "per-row edit/add/delete
  status"; the component reads and writes the fields \<^verbatim>\<open>added\<close> and \<^verbatim>\<open>editing\<close> of a
  status and tests them for truth only, so a status is a pair of flags, and a new one
  has neither set.
\<close>

record DataStatus =
  editing :: bool
  added :: bool

definition new_DataStatus :: DataStatus where
  "new_DataStatus = \<lparr>editing = False, added = False\<rparr>"

text \<open>
  A form control of the forms library: its identity, its current value and whether it
  is valid. \<^verbatim>\<open>FormBuilder.control(formState)\<close> makes a new control each time it is
  called; the value and the validity it starts with are those that \<open>fb_control\<close> of the
  environment gives for the form state. The user's input and the host change value
  and validity later.
\<close>

record control =
  cid :: nat
  cvalue :: val
  cvalid :: bool

record MatSort =
  active :: string
  direction :: string

text \<open>
  The data source keeps the reference of the array it was made for; its filter string
  starts empty. The paginator and the sort header are recorded as attached or not.
\<close>

record MatTableDataSource =
  ds_data :: val
  ds_filter :: string
  ds_paginator :: bool
  ds_sort :: bool

datatype event = AddEvent val | EditEvent val | DeleteEvent val

text \<open>
  The fields of the component that its methods read or write, with the heap of host
  objects and the number of controls made so far (the identity of the next one). The
  input \<^verbatim>\<open>data\<close> is a reference to an array that the host owns as well; \<^verbatim>\<open>columns\<close>
  may be unset; the maps \<^verbatim>\<open>dataStatus\<close> and \<^verbatim>\<open>formControls\<close> keep their entries in
  insertion order. The input \<^verbatim>\<open>filter\<close> is the field \<open>filterEnabled\<close>. The sort header
  \<^verbatim>\<open>matSort\<close> is a child widget that the framework provides.

  A method returns \<open>Inl\<close> of the error it throws or \<open>Inr\<close> of the state it leaves; what
  it had written before throwing is not kept.
\<close>

record component =
  data :: val
  columns :: "column list option"
  filterEnabled :: bool
  paginator :: bool
  sorting :: bool
  editable :: bool
  addable :: bool
  deletable :: bool
  create :: "(heap \<Rightarrow> heap \<times> val) option"
  displayedColumns :: "string list"
  dataSource :: "MatTableDataSource option"
  currentlyAdding :: bool
  dataStatus :: "(val \<times> DataStatus) list"
  oldColumns :: "column list"
  formControls :: "(string \<times> control) list"
  matSort :: MatSort
  heap :: heap
  nextControlId :: nat

text \<open>The keys of a \<^verbatim>\<open>SimpleChanges\<close> object that the component looks at.\<close>

record SimpleChanges =
  ch_data :: bool
  ch_columns :: bool

definition ngOnInit :: "component \<Rightarrow> error + component" where
  "ngOnInit s =
     (if addable s \<and> create s = None
      then Inl (Error (''Seems like you enabled adding of elements (adding was set to true), but you did not supply a create function.'' @
                       '' Please specify a create function that will be used to create new Elements of your'' @
                       '' Model by binding to the create input parameter.''))
      else Inr s)"

definition applyFilter :: "env \<Rightarrow> string \<Rightarrow> component \<Rightarrow> error + component" where
  "applyFilter fe filterValue s =
     (let filterValue1 = trim fe filterValue;
          filterValue2 = toLowerCase fe filterValue1
      in case dataSource s of
           None \<Rightarrow> Inl TypeError
         | Some ds \<Rightarrow> Inr (s\<lparr>dataSource := Some (ds\<lparr>ds_filter := filterValue2\<rparr>)\<rparr>))"

definition cellId :: "nat \<Rightarrow> nat \<Rightarrow> string" where
  "cellId rowIndex colIndex = toString_nat rowIndex @ ''_'' @ toString_nat colIndex"

definition getFormControl ::
  "env \<Rightarrow> nat \<Rightarrow> nat \<Rightarrow> column \<Rightarrow> val \<Rightarrow> component \<Rightarrow> error + (component \<times> control)" where
  "getFormControl fe rowIndex colIndex tcol element s =
     (let ident = cellId rowIndex colIndex in
      case map_of (formControls s) ident of
        Some c \<Rightarrow> Inr (s, c)
      | None \<Rightarrow>
          bindE (getProp fe (heap s) (getv tcol ''formField'') (Str ''init'')) (\<lambda>initFn.
          bindE (if truthy initFn
                 then bindE (getProp fe (heap s) element (getv tcol ''property'')) (\<lambda>pv.
                        callFn fe (heap s) initFn [pv, element])
                 else getProp fe (heap s) element (getv tcol ''property'')) (\<lambda>v.
          let c = \<lparr>cid = nextControlId s,
                   cvalue = fst (fb_control fe (heap s) v),
                   cvalid = snd (fb_control fe (heap s) v)\<rparr> in
          Inr (s\<lparr>formControls := formControls s @ [(ident, c)],
                 nextControlId := Suc (nextControlId s)\<rparr>, c))))"

definition getDisplayedCols :: "column list \<Rightarrow> column list" where
  "getDisplayedCols cols = filter (\<lambda>col. truthy (getv col ''visible'')) cols"

definition getStringRepresentation :: "env \<Rightarrow> heap \<Rightarrow> column \<Rightarrow> val \<Rightarrow> error + val" where
  "getStringRepresentation fe h tcol element =
     (if truthy (getv tcol ''transform'')
      then bindE (getProp fe h element (getv tcol ''property'')) (\<lambda>pv.
             callFn fe h (getv tcol ''transform'') [pv, element])
      else bindE (getProp fe h element (getv tcol ''property'')) toStringMethod)"

text \<open>
  \<^verbatim>\<open>new obj.constructor()\<close>: the property \<^verbatim>\<open>constructor\<close> is read from the object, and
  a value that is not a function cannot be constructed.
\<close>

definition newLike :: "env \<Rightarrow> heap \<Rightarrow> val \<Rightarrow> error + (string \<times> val) list" where
  "newLike fe h ob =
     bindE (getProp fe h ob (Str ''constructor'')) (\<lambda>c.
       case c of Fun f \<Rightarrow> construct fe f | _ \<Rightarrow> Inl TypeError)"

text \<open>
  \<^verbatim>\<open>obj.hasOwnProperty(prop)\<close> for an object with the own properties \<open>ps\<close>: the property
  \<^verbatim>\<open>hasOwnProperty\<close> is read from the object, and calling a value that is not a function
  throws. \<^verbatim>\<open>Object.prototype.hasOwnProperty\<close> tells whether \<open>prop\<close> is an own property;
  what another function answers is left out of the model.
\<close>

definition hasOwnProperty :: "env \<Rightarrow> heap \<Rightarrow> val \<Rightarrow> (string \<times> val) list \<Rightarrow> string \<Rightarrow> error + bool" where
  "hasOwnProperty fe h ob ps prop =
     bindE (getProp fe h ob (Str ''hasOwnProperty'')) (\<lambda>m.
       case m of
         Fun f \<Rightarrow> if f = objectHasOwnProperty fe then Inr (prop \<in> set (map fst ps))
                  else Inl Unsupported
       | _ \<Rightarrow> Inl TypeError)"

text \<open>
  The names that \<^verbatim>\<open>for (const prop in obj)\<close> visits: the own properties, then the
  inherited enumerable names that no own property hides.
\<close>

definition forIn :: "env \<Rightarrow> addr \<Rightarrow> (string \<times> val) list \<Rightarrow> string list" where
  "forIn fe a ps = map fst ps @ filter (\<lambda>prop. prop \<notin> set (map fst ps)) (enumerable fe a)"

text \<open>
  \<^verbatim>\<open>deepCopy\<close> calls itself on every own property of an object; the second argument
  bounds the depth of the calls, and running out of it is the \<^verbatim>\<open>RangeError\<close> of an
  exhausted stack.
\<close>

fun deepCopy :: "env \<Rightarrow> nat \<Rightarrow> heap \<Rightarrow> val \<Rightarrow> error + (heap \<times> val)" where
  "deepCopy fe 0 h ob = Inl RangeError"
| "deepCopy fe (Suc n) h ob =
     (case ob of
        Ref a \<Rightarrow>
          (if a < length h then
             (case h ! a of
                DateObj t \<Rightarrow> Inr (h @ [DateObj t], Ref (length h))
              | ArrayObj xs \<Rightarrow> Inr (h @ [ArrayObj (map (\<lambda>ele. ele) xs)], Ref (length h))
              | PlainObj ps \<Rightarrow>
                  (case newLike fe h ob of
                     Inl e \<Rightarrow> Inl e
                   | Inr clonedObj \<Rightarrow>
                       (case fold (\<lambda>prop acc.
                               case acc of
                                 Inl e \<Rightarrow> Inl e
                               | Inr h1 \<Rightarrow>
                                   (case hasOwnProperty fe h1 ob ps prop of
                                      Inl e \<Rightarrow> Inl e
                                    | Inr own \<Rightarrow>
                                        if own then
                                          (case getProp fe h1 ob (Str prop) of
                                             Inl e \<Rightarrow> Inl e
                                           | Inr v \<Rightarrow>
                                               (case deepCopy fe n h1 v of
                                                  Inl e \<Rightarrow> Inl e
                                                | Inr (h2, c) \<Rightarrow>
                                                    setProp h2 (Ref (length h)) (Str prop) c))
                                        else Inr h1))
                             (forIn fe a ps) (Inr (h @ [PlainObj clonedObj])) of
                          Inl e \<Rightarrow> Inl e
                        | Inr h' \<Rightarrow> Inr (h', Ref (length h)))))
           else Inl Unsupported)
      | _ \<Rightarrow> Inr (h, ob))"

text \<open>
  One round of that loop for the copy at address \<open>k\<close>, with the call of \<^verbatim>\<open>deepCopy\<close> for
  the property as a parameter: the loop of \<open>deepCopy fe (Suc n)\<close> is the fold of
  \<open>copyProp fe (deepCopy fe n)\<close>.
\<close>

definition copyProp ::
  "env \<Rightarrow> (heap \<Rightarrow> val \<Rightarrow> error + (heap \<times> val)) \<Rightarrow> val \<Rightarrow> (string \<times> val) list \<Rightarrow> addr
     \<Rightarrow> string \<Rightarrow> error + heap \<Rightarrow> error + heap" where
  "copyProp fe g ob ps k =
     (\<lambda>prop acc.
        case acc of
          Inl e \<Rightarrow> Inl e
        | Inr h1 \<Rightarrow>
            (case hasOwnProperty fe h1 ob ps prop of
               Inl e \<Rightarrow> Inl e
             | Inr own \<Rightarrow>
                 if own then
                   (case getProp fe h1 ob (Str prop) of
                      Inl e \<Rightarrow> Inl e
                    | Inr v \<Rightarrow>
                        (case g h1 v of
                           Inl e \<Rightarrow> Inl e
                         | Inr (h2, c) \<Rightarrow> setProp h2 (Ref k) (Str prop) c))
                 else Inr h1))"


text \<open>
  The controls that \<^verbatim>\<open>saveElement\<close> collects for a row: the entries of the control map
  whose key starts with the row index, each with the column index read from its key by
  \<^verbatim>\<open>+(key.split('_')[1])\<close>. A key without an underscore gives \<^verbatim>\<open>NaN\<close> (here \<open>None\<close>).
\<close>

definition keyCol :: "string \<Rightarrow> error + nat option" where
  "keyCol k =
     (case splitStr CHR ''_'' k of
        _ # seg # _ \<Rightarrow> (case toNumber seg of None \<Rightarrow> Inl Unsupported | Some n \<Rightarrow> Inr (Some n))
      | _ \<Rightarrow> Inr None)"

definition rowControls ::
  "nat \<Rightarrow> (string \<times> control) list \<Rightarrow> ((error + nat option) \<times> control) list" where
  "rowControls rowIndex fcs =
     map (\<lambda>entry. (keyCol (fst entry), snd entry))
       (filter (\<lambda>entry. startsWith (fst entry) (toString_nat rowIndex)) fcs)"

text \<open>The body of the \<^verbatim>\<open>forEach\<close> of \<^verbatim>\<open>saveElement\<close>, for one collected control.\<close>

definition applyControl ::
  "env \<Rightarrow> column list option \<Rightarrow> val \<Rightarrow> ((error + nat option) \<times> control) \<Rightarrow> heap
     \<Rightarrow> error + heap" where
  "applyControl fe cols element c h =
     (case cols of
        None \<Rightarrow> Inl TypeError
      | Some cs \<Rightarrow>
          bindE (fst c) (\<lambda>col.
          case (case col of None \<Rightarrow> None
                | Some i \<Rightarrow> if i < length (getDisplayedCols cs)
                            then Some (getDisplayedCols cs ! i) else None) of
            None \<Rightarrow> Inl TypeError
          | Some tcol \<Rightarrow>
              (let v = cvalue (snd c) in
               bindE (getProp fe h (getv tcol ''formField'') (Str ''apply'')) (\<lambda>applyFn.
               bindE (if truthy applyFn
                      then bindE (getProp fe h element (getv tcol ''property'')) (\<lambda>pv.
                             callFn fe h applyFn [v, pv, element])
                      else Inr v) (\<lambda>nv.
               setProp h element (getv tcol ''property'') nv)))))"


definition shift :: "'a list \<Rightarrow> 'a list" where
  "shift xs = (case xs of [] \<Rightarrow> [] | _ # ys \<Rightarrow> ys)"

text \<open>
  \<^verbatim>\<open>saveElement\<close> returns the new state with the events it emitted, in order. The first
  argument is the stack left for \<^verbatim>\<open>deepCopy\<close>. The call of \<^verbatim>\<open>console.log\<close> is left out.
\<close>

definition saveElement ::
  "nat \<Rightarrow> env \<Rightarrow> nat \<Rightarrow> val \<Rightarrow> component \<Rightarrow> error + (component \<times> event list)" where
  "saveElement stack fe rowIndex oldElement s =
     (let controls = rowControls rowIndex (formControls s) in
      if list_ex (\<lambda>c. \<not> cvalid (snd c)) controls then Inr (s, [])
      else
        bindE (deepCopy fe stack (heap s) oldElement) (\<lambda>(h1, element).
        bindE (fold (\<lambda>c acc. bindE acc (applyControl fe (columns s) element c))
                 controls (Inr h1)) (\<lambda>h2.
        case map_of (dataStatus s) oldElement of
          None \<Rightarrow> Inl TypeError
        | Some st \<Rightarrow>
            if added st then
              bindE (getArray h2 (data s)) (\<lambda>arr.
                Inr (s\<lparr>heap := setArray h2 (data s) (shift arr), currentlyAdding := False\<rparr>,
                     [AddEvent element]))
            else Inr (s\<lparr>heap := h2\<rparr>, [EditEvent element]))))"

definition startEditElement :: "val \<Rightarrow> component \<Rightarrow> component" where
  "startEditElement element s =
     (let status = (case map_of (dataStatus s) element of Some st \<Rightarrow> st | None \<Rightarrow> new_DataStatus)
      in s\<lparr>dataStatus := AList.update element (status\<lparr>editing := True\<rparr>) (dataStatus s)\<rparr>)"

definition cancelEditElement :: "val \<Rightarrow> component \<Rightarrow> error + component" where
  "cancelEditElement element s =
     (case map_of (dataStatus s) element of
        None \<Rightarrow> Inl TypeError
      | Some st \<Rightarrow>
          Inr (s\<lparr>dataStatus := AList.update element (st\<lparr>editing := False\<rparr>) (dataStatus s)\<rparr>))"

definition turnOffSorting :: "component \<Rightarrow> component" where
  "turnOffSorting s =
     (if active (matSort s) \<noteq> []
      then s\<lparr>matSort := (matSort s)\<lparr>direction := [], active := []\<rparr>\<rparr>
      else s)"

definition clearAddedEntry :: "component \<Rightarrow> error + component" where
  "clearAddedEntry s =
     bindE (fold (\<lambda>(key, value) acc.
              bindE acc (\<lambda>(toDelete, h).
                if added value
                then bindE (getArray h (data s)) (\<lambda>arr.
                       Inr (key, setArray h (data s) (splice1 (arr_indexOf arr key) arr)))
                else Inr (toDelete, h)))
            (dataStatus s) (Inr (Undefined, heap s)))
       (\<lambda>(toDelete, h).
          if truthy toDelete
          then Inr (s\<lparr>heap := h, dataStatus := AList.delete toDelete (dataStatus s)\<rparr>)
          else Inr (s\<lparr>heap := h\<rparr>))"

text \<open>
  \<^verbatim>\<open>recreateDataSource\<close>: the filter predicate it installs is \<open>filterPredicate\<close> below;
  the sorting accessor is not part of the model.
\<close>

definition columnIds :: "column list \<Rightarrow> error + string list" where
  "columnIds cols =
     fold (\<lambda>(i, col) acc.
        bindE acc (\<lambda>ids. bindE (toStringCoerce (getv col ''property'')) (\<lambda>p.
          Inr (ids @ [toString_nat i @ ''_'' @ p]))))
       (zip [0..<length cols] cols) (Inr [])"

definition recreateDataSource :: "component \<Rightarrow> error + component" where
  "recreateDataSource s =
     (case columns s of
        None \<Rightarrow> Inr s
      | Some cols \<Rightarrow>
          if truthy (data s) then
            bindE (columnIds (getDisplayedCols cols)) (\<lambda>ids.
              Inr (s\<lparr>dataSource :=
                       Some \<lparr>ds_data = data s, ds_filter = [],
                             ds_paginator = paginator s, ds_sort = sorting s\<rparr>,
                     displayedColumns :=
                       (if editable s \<or> addable s \<or> deletable s then ids @ [''actions''] else ids)\<rparr>))
          else Inr s)"


text \<open>
  \<^verbatim>\<open>MatTableDataSource.sortData\<close> belongs to the widget library: it orders the array it
  is given in place and returns it. The order it produces is the parameter \<open>sortData\<close>.
\<close>

definition cleanUpAfterDataChange ::
  "(heap \<Rightarrow> val list \<Rightarrow> MatSort \<Rightarrow> val list) \<Rightarrow> bool \<Rightarrow> component \<Rightarrow> error + component" where
  "cleanUpAfterDataChange sortData columnChanges s =
     bindE (getArray (heap s) (data s)) (\<lambda>arr.
       let s1 = s\<lparr>dataStatus := fold (\<lambda>d m. AList.update d new_DataStatus m) arr [],
                  formControls := []\<rparr>
       in bindE (if active (matSort s1) \<noteq> [] then
                   (if columnChanges then Inr (turnOffSorting s1)
                    else (case dataSource s1 of
                            None \<Rightarrow> Inl TypeError
                          | Some ds \<Rightarrow>
                              bindE (getArray (heap s1) (ds_data ds)) (\<lambda>xs.
                                Inr (s1\<lparr>heap := setArray (heap s1) (ds_data ds)
                                                  (sortData (heap s1) xs (matSort s1))\<rparr>))))
                 else Inr s1)
            (\<lambda>s2. Inr (s2\<lparr>currentlyAdding := False\<rparr>)))"

definition startAddElement ::
  "(heap \<Rightarrow> val list \<Rightarrow> MatSort \<Rightarrow> val list) \<Rightarrow> component \<Rightarrow> error + component" where
  "startAddElement sortData s =
     (case create s of
        None \<Rightarrow> Inl TypeError
      | Some mk \<Rightarrow>
          (let (h0, ele) = mk (heap s) in
           bindE (getArray h0 (data s)) (\<lambda>arr.
           bindE (recreateDataSource (s\<lparr>heap := setArray h0 (data s) (ele # arr)\<rparr>)) (\<lambda>s1.
           bindE (cleanUpAfterDataChange sortData False s1) (\<lambda>s2.
             Inr (s2\<lparr>dataStatus :=
                       AList.update ele (new_DataStatus\<lparr>added := True, editing := True\<rparr>)
                         (dataStatus s2),
                    currentlyAdding := True\<rparr>))))))"

definition ngOnChanges ::
  "(heap \<Rightarrow> val list \<Rightarrow> MatSort \<Rightarrow> val list) \<Rightarrow> SimpleChanges \<Rightarrow> component \<Rightarrow> error + component" where
  "ngOnChanges sortData changes s =
     (if ch_data changes then
        bindE (clearAddedEntry s) (\<lambda>s1.
        bindE (recreateDataSource s1) (\<lambda>s2.
          cleanUpAfterDataChange sortData (ch_columns changes) s2))
      else Inr s)"

definition prepareForColChange :: "component \<Rightarrow> error + component" where
  "prepareForColChange s = bindE (clearAddedEntry s) (\<lambda>s1. Inr (turnOffSorting s1))"

definition cleanUpAfterColChange :: "component \<Rightarrow> error + component" where
  "cleanUpAfterColChange s =
     (case columns s of
        None \<Rightarrow> Inl TypeError
      | Some cols \<Rightarrow>
          Inr (s\<lparr>dataStatus := map (\<lambda>(key, value). (key, new_DataStatus)) (dataStatus s),
                formControls := [],
                oldColumns := map (\<lambda>col. col) cols,
                currentlyAdding := False\<rparr>))"

text \<open>
  \<^verbatim>\<open>checkForDifferences\<close>: the callback of \<^verbatim>\<open>some\<close> runs over the keys of the saved copy
  \<open>col\<close> and compares \<^verbatim>\<open>col[key]\<close> with \<^verbatim>\<open>this.columns[i][key]\<close>.
\<close>

definition checkForDifferences :: "component \<Rightarrow> error + bool" where
  "checkForDifferences s =
     (case columns s of
        None \<Rightarrow> Inl TypeError
      | Some cols \<Rightarrow>
          if length (oldColumns s) \<noteq> length cols then Inr True
          else Inr (list_ex (\<lambda>i.
                      list_ex (\<lambda>key. getv (oldColumns s ! i) key \<noteq> getv (cols ! i) key)
                        (map fst (oldColumns s ! i)))
                    [0..<length (oldColumns s)]))"

definition ngDoCheck :: "component \<Rightarrow> error + component" where
  "ngDoCheck s =
     bindE (checkForDifferences s) (\<lambda>differs.
       if differs then
         bindE (prepareForColChange s) (\<lambda>s1.
         bindE (recreateDataSource s1) (\<lambda>s2.
           cleanUpAfterColChange s2))
       else Inr s)"

section \<open>Reachable states\<close>

text \<open>
  The rows that carry the status \<^verbatim>\<open>added\<close>, and the states the component can reach. The
  row-status map is private: it is empty when the component is constructed, five
  methods write to it, and whatever else happens (the host changing inputs and objects,
  the widgets, the other methods) leaves it as it is.
\<close>

definition addedRows :: "component \<Rightarrow> val list" where
  "addedRows s = map fst (filter (\<lambda>p. added (snd p)) (dataStatus s))"

inductive reachable ::
  "(heap \<Rightarrow> val list \<Rightarrow> MatSort \<Rightarrow> val list) \<Rightarrow> component \<Rightarrow> bool"
  for sortData :: "heap \<Rightarrow> val list \<Rightarrow> MatSort \<Rightarrow> val list" where
  constructed: "dataStatus s = [] \<Longrightarrow> reachable sortData s"
| elsewhere: "reachable sortData s \<Longrightarrow> dataStatus s' = dataStatus s \<Longrightarrow> reachable sortData s'"
| startAdd: "reachable sortData s \<Longrightarrow> startAddElement sortData s = Inr s' \<Longrightarrow>
     reachable sortData s'"
| onChanges: "reachable sortData s \<Longrightarrow> ngOnChanges sortData changes s = Inr s' \<Longrightarrow>
     reachable sortData s'"
| doCheck: "reachable sortData s \<Longrightarrow> ngDoCheck s = Inr s' \<Longrightarrow> reachable sortData s'"
| startEdit: "reachable sortData s \<Longrightarrow> reachable sortData (startEditElement element s)"
| cancelEdit: "reachable sortData s \<Longrightarrow> cancelEditElement element s = Inr s' \<Longrightarrow>
     reachable sortData s'"

section \<open>The spec's notion of a column difference\<close>

text \<open>
  The spec's words for the dirty check: the two arrays ``have different lengths or some
  column at index i has a property whose value is not equal to the saved copy's value
  for that property''. This definition follows those words; it is compared with
  \<open>checkForDifferences\<close>, which follows the source.
\<close>

definition spec_columns_differ :: "column list \<Rightarrow> column list \<Rightarrow> bool" where
  "spec_columns_differ saved cols =
     (length saved \<noteq> length cols \<or>
      list_ex (\<lambda>i. list_ex (\<lambda>key. getv (cols ! i) key \<noteq> getv (saved ! i) key)
                      (map fst (cols ! i)))
        [0..<length cols])"

section \<open>Example states\<close>

text \<open>The component as its field initialisers leave it, with its empty data array.\<close>

definition init_component :: component where
  "init_component =
     \<lparr>data = Ref 0, columns = Some [], filterEnabled = False, paginator = False,
      sorting = False, editable = False, addable = False, deletable = False,
      create = None, displayedColumns = [], dataSource = None, currentlyAdding = False,
      dataStatus = [], oldColumns = [], formControls = [],
      matSort = \<lparr>active = [], direction = []\<rparr>,
      heap = [ArrayObj []], nextControlId = 0\<rparr>"

text \<open>
  A table of two rows with a name and an age; the name column has a form field without
  \<^verbatim>\<open>init\<close> and \<^verbatim>\<open>apply\<close> (the object at address 3).
\<close>

definition ex_heap :: heap where
  "ex_heap =
     [ArrayObj [Ref 1, Ref 2],
      PlainObj [(''name'', Str ''Ada''), (''age'', Num 36)],
      PlainObj [(''name'', Str ''Bob''), (''age'', Num 41)],
      PlainObj []]"

definition ex_columns :: "column list" where
  "ex_columns =
     [[(''name'', Str ''Name''), (''property'', Str ''name''), (''visible'', Bool True),
       (''formField'', Ref 3)],
      [(''name'', Str ''Age''), (''property'', Str ''age''), (''visible'', Bool True)]]"

definition ex_component :: component where
  "ex_component =
     init_component\<lparr>data := Ref 0, columns := Some ex_columns, editable := True,
       heap := ex_heap,
       dataStatus := [(Ref 1, new_DataStatus), (Ref 2, new_DataStatus)],
       oldColumns := ex_columns,
       dataSource := Some \<lparr>ds_data = Ref 0, ds_filter = [], ds_paginator = False, ds_sort = False\<rparr>\<rparr>"

text \<open>Row 1 is being edited: its name cell has a control holding a new name.\<close>

definition ex_editing :: component where
  "ex_editing =
     ex_component\<lparr>formControls := [(''1_0'', \<lparr>cid = 0, cvalue = Str ''Bobby'', cvalid = True\<rparr>)],
       dataStatus := [(Ref 1, new_DataStatus), (Ref 2, new_DataStatus\<lparr>editing := True\<rparr>)],
       nextControlId := 1\<rparr>"

text \<open>The same, with a value that the control's validators reject.\<close>

definition ex_invalid :: component where
  "ex_invalid =
     ex_component\<lparr>formControls := [(''1_0'', \<lparr>cid = 0, cvalue = Str [], cvalid = False\<rparr>)],
       dataStatus := [(Ref 1, new_DataStatus), (Ref 2, new_DataStatus\<lparr>editing := True\<rparr>)],
       nextControlId := 1\<rparr>"

text \<open>
  After the data source was built, the host gives the name column a \<^verbatim>\<open>transform\<close>
  function, a property the column did not have before.
\<close>

definition ex_transform_added :: component where
  "ex_transform_added =
     ex_component\<lparr>columns :=
       Some [[(''name'', Str ''Name''), (''property'', Str ''name''), (''visible'', Bool True),
              (''formField'', Ref 3), (''transform'', Fun 0)],
             [(''name'', Str ''Age''), (''property'', Str ''age''), (''visible'', Bool True)]]\<rparr>"

text \<open>
  Row 1 is being edited, and the row object has an own property \<^verbatim>\<open>constructor\<close>, or
  \<^verbatim>\<open>hasOwnProperty\<close>, that is not a function.
\<close>

definition ex_own_constructor :: component where
  "ex_own_constructor =
     ex_editing\<lparr>heap := (heap ex_editing)
       [2 := PlainObj [(''name'', Str ''Bob''), (''constructor'', Str ''acme'')]]\<rparr>"

definition ex_own_hasOwnProperty :: component where
  "ex_own_hasOwnProperty =
     ex_editing\<lparr>heap := (heap ex_editing)
       [2 := PlainObj [(''name'', Str ''Bob''), (''hasOwnProperty'', Bool True)]]\<rparr>"

text \<open>
  A row object (address 5) whose name is a boxed value (address 4) that asks for a
  disabled control.
\<close>

definition ex_boxed :: component where
  "ex_boxed =
     ex_component\<lparr>heap := ex_heap @
       [PlainObj [(''value'', Str ''Cy''), (''disabled'', Bool True)],
        PlainObj [(''name'', Ref 4), (''age'', Num 29)]]\<rparr>"

text \<open>
  A table of eleven rows (addresses 1 to 11) with one editable column, in which the
  rows with index 1 and 10 are being edited at the same time.
\<close>

definition ex_two_rows_editing :: component where
  "ex_two_rows_editing =
     init_component\<lparr>data := Ref 0,
       columns := Some [[(''name'', Str ''Name''), (''property'', Str ''name''),
                         (''visible'', Bool True), (''formField'', Ref 12)]],
       editable := True,
       heap := ArrayObj (map Ref [1..<12]) #
               map (\<lambda>i. PlainObj [(''name'', Str (''row'' @ toString_nat i))]) [0..<11] @
               [PlainObj []],
       dataStatus := map (\<lambda>a. (Ref a, new_DataStatus\<lparr>editing := (a = 2 \<or> a = 11)\<rparr>)) [1..<12],
       formControls := [(''1_0'', \<lparr>cid = 0, cvalue = Str ''mine'', cvalid = True\<rparr>),
                        (''10_0'', \<lparr>cid = 1, cvalue = Str ''other'', cvalid = True\<rparr>)],
       nextControlId := 2\<rparr>"

text \<open>
  The two-row table with adding enabled; \<^verbatim>\<open>create\<close> makes a new empty row. While the new
  row is pending, the host binds a new array of two other rows to \<^verbatim>\<open>data\<close>.
\<close>

definition ex_addable :: component where
  "ex_addable =
     ex_component\<lparr>addable := True,
       create := Some (\<lambda>h. (h @ [PlainObj []], Ref (length h)))\<rparr>"

definition host_binds_new_data :: "component \<Rightarrow> component" where
  "host_binds_new_data s =
     s\<lparr>data := Ref (length (heap s) + 2),
       heap := heap s @ [PlainObj [(''name'', Str ''Cy''), (''age'', Num 29)],
                         PlainObj [(''name'', Str ''Di''), (''age'', Num 53)],
                         ArrayObj [Ref (length (heap s)), Ref (length (heap s) + 1)]]\<rparr>"

text \<open>
  The environment of the examples. The objects are object literals and instances of
  classes without members of their own: they inherit \<^verbatim>\<open>Object\<close> (function 1) as their
  constructor and \<^verbatim>\<open>Object.prototype.hasOwnProperty\<close> (function 2), and no enumerable
  name; the other members of \<^verbatim>\<open>Object.prototype\<close> are not read. The host binds no
  callback that throws.

  The characters of a string are its code units, below 256. Of these, \<^verbatim>\<open>trim\<close> removes
  the white space and line terminators U+0009 to U+000D, U+0020 and U+00A0, and
  \<^verbatim>\<open>toLowerCase\<close> changes the letters U+0041 to U+005A and U+00C0 to U+00DE (without
  the sign U+00D7) to the letter 32 places further on.

  \<^verbatim>\<open>FormBuilder.control(formState)\<close> is called without validators. A form state with
  exactly the two properties \<^verbatim>\<open>value\<close> and \<^verbatim>\<open>disabled\<close> is a boxed value: the control
  takes its \<^verbatim>\<open>value\<close>, and a disabled control is not valid. Any other form state is
  the value of the control, which is valid.
\<close>

definition builtinNames :: "string list" where
  "builtinNames =
     [''isPrototypeOf'', ''propertyIsEnumerable'', ''toLocaleString'', ''toString'',
      ''valueOf'', ''__proto__'', ''__defineGetter__'', ''__defineSetter__'',
      ''__lookupGetter__'', ''__lookupSetter__'']"

definition isWhiteSpace :: "char \<Rightarrow> bool" where
  "isWhiteSpace c = (of_char c \<in> set [0x09, 0x0A, 0x0B, 0x0C, 0x0D, 0x20, 0xA0 :: nat])"

definition ex_trim :: "string \<Rightarrow> string" where
  "ex_trim s = rev (dropWhile isWhiteSpace (rev (dropWhile isWhiteSpace s)))"

definition isUpper :: "char \<Rightarrow> bool" where
  "isUpper c =
     (let n = of_char c :: nat
      in (0x41 \<le> n \<and> n \<le> 0x5A) \<or> (0xC0 \<le> n \<and> n \<le> 0xDE \<and> n \<noteq> 0xD7))"

definition toLowerChar :: "char \<Rightarrow> char" where
  "toLowerChar c = (if isUpper c then char_of (of_char c + (32::nat)) else c)"

definition ex_toLowerCase :: "string \<Rightarrow> string" where
  "ex_toLowerCase s = map toLowerChar s"

definition isBoxedValue :: "heap \<Rightarrow> val \<Rightarrow> bool" where
  "isBoxedValue h v =
     (case v of
        Ref a \<Rightarrow>
          a < length h \<and>
          (case h ! a of
             PlainObj ps \<Rightarrow>
               length ps = 2 \<and> ''value'' \<in> set (map fst ps) \<and> ''disabled'' \<in> set (map fst ps)
           | _ \<Rightarrow> False)
      | _ \<Rightarrow> False)"

definition ex_fb_control :: "heap \<Rightarrow> val \<Rightarrow> val \<times> bool" where
  "ex_fb_control h v =
     (if isBoxedValue h v
      then (case v of
              Ref a \<Rightarrow>
                (case h ! a of
                   PlainObj ps \<Rightarrow> (getv ps ''value'', \<not> truthy (getv ps ''disabled''))
                 | _ \<Rightarrow> (v, True))
            | _ \<Rightarrow> (v, True))
      else (v, True))"

definition no_fns :: env where
  "no_fns =
     \<lparr>call = (\<lambda>f h args. Inr Undefined),
      construct = (\<lambda>f. if f = 1 then Inr [] else Inl Unsupported),
      inherited = (\<lambda>a p. if p = ''constructor'' then Inr (Fun 1)
                          else if p = ''hasOwnProperty'' then Inr (Fun 2)
                          else if p \<in> set builtinNames then Inl Unsupported
                          else Inr Undefined),
      enumerable = (\<lambda>a. []),
      objectHasOwnProperty = 2,
      fb_control = ex_fb_control,
      trim = ex_trim,
      toLowerCase = ex_toLowerCase\<rparr>"

definition keep_order :: "heap \<Rightarrow> val list \<Rightarrow> MatSort \<Rightarrow> val list" where
  "keep_order h xs m = xs"

section \<open>AbstractFormField (abstract-form-field.model.ts)\<close>

text \<open>
  The class has seven fields; \<^verbatim>\<open>formType\<close>, \<^verbatim>\<open>init\<close> and \<^verbatim>\<open>apply\<close> have no initialiser.
  The types \<^verbatim>\<open>FormFieldType\<close>, \<^verbatim>\<open>ValidatorFn\<close> and \<^verbatim>\<open>FormError\<close> are imported and stay
  type parameters. Form fields are mutable objects, so they live in a store and a
  setter takes the address of its receiver and returns the updated store together
  with the reference it returns.
\<close>

record ('ft, 'vf, 'i, 'a, 'fe) AbstractFormField =
  formType :: "'ft option"
  validators :: "'vf list"
  init :: "'i option"
  applyFn :: "'a option"
  errors :: "'fe list"
  placeholder :: string
  hint :: string

definition new_AbstractFormField :: "('ft, 'vf, 'i, 'a, 'fe) AbstractFormField" where
  "new_AbstractFormField =
     \<lparr>formType = None, validators = [], init = None, applyFn = None, errors = [],
      placeholder = [], hint = []\<rparr>"

text \<open>The argument of \<^verbatim>\<open>withValidators\<close> has type \<^verbatim>\<open>ValidatorFn[] | ValidatorFn\<close>.\<close>

datatype 'vf validators_arg = VArray "'vf list" | VSingle 'vf

definition modify ::
  "nat \<Rightarrow> ('o \<Rightarrow> 'o) \<Rightarrow> 'o list \<Rightarrow> 'o list" where
  "modify this f st = (if this < length st then st[this := f (st ! this)] else st)"

definition withValidators ::
  "'vf validators_arg \<Rightarrow> nat \<Rightarrow> ('ft, 'vf, 'i, 'a, 'fe) AbstractFormField list
     \<Rightarrow> ('ft, 'vf, 'i, 'a, 'fe) AbstractFormField list \<times> nat" where
  "withValidators vs this st =
     (case vs of
        VArray arr \<Rightarrow> (modify this (\<lambda>ff. ff\<lparr>validators := arr\<rparr>) st, this)
      | VSingle v \<Rightarrow> (modify this (\<lambda>ff. ff\<lparr>validators := [v]\<rparr>) st, this))"

definition withInit ::
  "'i \<Rightarrow> nat \<Rightarrow> ('ft, 'vf, 'i, 'a, 'fe) AbstractFormField list
     \<Rightarrow> ('ft, 'vf, 'i, 'a, 'fe) AbstractFormField list \<times> nat" where
  "withInit initFn this st = (modify this (\<lambda>ff. ff\<lparr>init := Some initFn\<rparr>) st, this)"

definition withApply ::
  "'a \<Rightarrow> nat \<Rightarrow> ('ft, 'vf, 'i, 'a, 'fe) AbstractFormField list
     \<Rightarrow> ('ft, 'vf, 'i, 'a, 'fe) AbstractFormField list \<times> nat" where
  "withApply fn this st = (modify this (\<lambda>ff. ff\<lparr>applyFn := Some fn\<rparr>) st, this)"

definition withErrors ::
  "'fe list \<Rightarrow> nat \<Rightarrow> ('ft, 'vf, 'i, 'a, 'fe) AbstractFormField list
     \<Rightarrow> ('ft, 'vf, 'i, 'a, 'fe) AbstractFormField list \<times> nat" where
  "withErrors es this st = (modify this (\<lambda>ff. ff\<lparr>errors := es\<rparr>) st, this)"

definition withPlaceholder ::
  "string \<Rightarrow> nat \<Rightarrow> ('ft, 'vf, 'i, 'a, 'fe) AbstractFormField list
     \<Rightarrow> ('ft, 'vf, 'i, 'a, 'fe) AbstractFormField list \<times> nat" where
  "withPlaceholder p this st = (modify this (\<lambda>ff. ff\<lparr>placeholder := p\<rparr>) st, this)"

definition withHint ::
  "string \<Rightarrow> nat \<Rightarrow> ('ft, 'vf, 'i, 'a, 'fe) AbstractFormField list
     \<Rightarrow> ('ft, 'vf, 'i, 'a, 'fe) AbstractFormField list \<times> nat" where
  "withHint t this st = (modify this (\<lambda>ff. ff\<lparr>hint := t\<rparr>) st, this)"

section \<open>Theorems\<close>

subsection \<open>Results and errors\<close>

lemma bindE_Inl [simp]: "bindE (Inl e) f = Inl e"
  by (simp add: bindE_def)

lemma bindE_Inr [simp]: "bindE (Inr x) f = f x"
  by (simp add: bindE_def)

lemma bindE_eq_Inr: "bindE m f = Inr y \<longleftrightarrow> (\<exists>x. m = Inr x \<and> f x = Inr y)"
  by (cases m) simp_all

subsection \<open>Strings and numerals\<close>






lemma digit_cases:
  assumes "d < (10::nat)"
  obtains "d = 0" | "d = 1" | "d = 2" | "d = 3" | "d = 4" | "d = 5" | "d = 6" | "d = 7" | "d = 8" | "d = 9"
  using assms by atomize_elim arith

lemma digit_char_props:
  assumes "d < 10"
  shows "isDigit (digit_char d) \<and> digit_val (digit_char d) = d \<and> CHR ''_'' \<noteq> digit_char d"
  using assms
  by (cases d rule: digit_cases) (simp_all add: digit_char_def isDigit_def digit_val_def)

lemma toString_nat_digits:
  "list_all isDigit (toString_nat n) \<and> CHR ''_'' \<notin> set (toString_nat n) \<and> toString_nat n \<noteq> []"
proof (induction n rule: toString_nat.induct)
  case (1 n)
  show ?case
  proof (cases "n < 10")
    case True
    with digit_char_props [of n] show ?thesis
      by (simp add: toString_nat.simps [of n])
  next
    case False
    with "1.IH" digit_char_props [of "n mod 10"] show ?thesis
      by (simp add: toString_nat.simps [of n])
  qed
qed

lemma fold_digits_toString_nat:
  "fold (\<lambda>c n. 10 * n + digit_val c) (toString_nat n) 0 = n"
proof (induction n rule: toString_nat.induct)
  case (1 n)
  show ?case
  proof (cases "n < 10")
    case True
    with digit_char_props [of n] show ?thesis
      by (simp add: toString_nat.simps [of n])
  next
    case False
    with "1.IH" digit_char_props [of "n mod 10"] show ?thesis
      by (simp add: toString_nat.simps [of n])
  qed
qed

lemma toNumber_toString_nat: "toNumber (toString_nat n) = Some n"
  using toString_nat_digits [of n] fold_digits_toString_nat [of n]
  by (simp add: toNumber_def)

lemma toString_nat_inj:
  assumes "toString_nat m = toString_nat n"
  shows "m = n"
proof -
  from assms have "toNumber (toString_nat m) = toNumber (toString_nat n)" by simp
  then show ?thesis by (simp add: toNumber_toString_nat)
qed

lemma splitStr_no_sep:
  "sep \<notin> set xs \<Longrightarrow> splitStr sep xs = [xs]"
  by (induction xs) auto

lemma splitStr_first_sep:
  "sep \<notin> set xs \<Longrightarrow> splitStr sep (xs @ sep # ys) = xs # splitStr sep ys"
  by (induction xs) auto

subsection \<open>Keys of the control map\<close>

text \<open>
  The key of a cell determines its row and column, and \<^verbatim>\<open>saveElement\<close> reads the column
  back from it. The controls collected for row \<open>r\<close> include those of row \<open>r\<close> and those
  of every row whose numeral starts with the numeral of \<open>r\<close>.
\<close>

lemma startsWith_cellId: "startsWith (cellId r c) (toString_nat r)"
  by (simp add: startsWith_def cellId_def)

lemma splitStr_cellId:
  "splitStr CHR ''_'' (cellId r c) = [toString_nat r, toString_nat c]"
  using toString_nat_digits [of r] toString_nat_digits [of c]
  by (simp add: cellId_def splitStr_first_sep splitStr_no_sep)

lemma keyCol_cellId: "keyCol (cellId r c) = Inr (Some c)"
  by (simp add: keyCol_def splitStr_cellId toNumber_toString_nat)

lemma cellId_inj:
  assumes "cellId r c = cellId r' c'"
  shows "r = r' \<and> c = c'"
proof -
  from assms have "splitStr CHR ''_'' (cellId r c) = splitStr CHR ''_'' (cellId r' c')" by simp
  then have "toString_nat r = toString_nat r'" "toString_nat c = toString_nat c'"
    by (simp_all add: splitStr_cellId)
  then show ?thesis by (simp add: toString_nat_inj)
qed

lemma cellId_1_0: "cellId 1 0 = ''1_0''"
  by code_simp

lemma rowControls_own_row:
  assumes "(cellId r c, ctl) \<in> set fcs"
  shows "(Inr (Some c), ctl) \<in> set (rowControls r fcs)"
proof -
  have "(keyCol (cellId r c), ctl) \<in> set (rowControls r fcs)"
    unfolding rowControls_def set_map set_filter
    using assms startsWith_cellId [of r c]
    by (intro image_eqI [where x = "(cellId r c, ctl)"]) simp_all
  then show ?thesis by (simp add: keyCol_cellId)
qed

lemma rowControls_other_row:
  assumes "(cellId r' c, ctl) \<in> set fcs" and "prefix (toString_nat r) (toString_nat r')"
  shows "(Inr (Some c), ctl) \<in> set (rowControls r fcs)"
proof -
  from assms(2) have "startsWith (cellId r' c) (toString_nat r)"
    by (simp add: startsWith_def cellId_def)
  then have "(keyCol (cellId r' c), ctl) \<in> set (rowControls r fcs)"
    unfolding rowControls_def set_map set_filter
    using assms(1)
    by (intro image_eqI [where x = "(cellId r' c, ctl)"]) simp_all
  then show ?thesis by (simp add: keyCol_cellId)
qed

subsection \<open>Arrays, maps and heaps\<close>

lemma getArray_Ref:
  "a < length h \<Longrightarrow> h ! a = ArrayObj xs \<Longrightarrow> getArray h (Ref a) = Inr xs"
  by (simp add: getArray_def)

lemma arr_indexOf_absent:
  "x \<notin> set xs \<Longrightarrow> arr_indexOf xs x = - 1"
  by (induction xs) (auto simp: Let_def)

lemma arr_indexOf_present:
  "x \<in> set xs \<Longrightarrow>
   0 \<le> arr_indexOf xs x \<and> nat (arr_indexOf xs x) = length (takeWhile (\<lambda>y. y \<noteq> x) xs)"
proof (induction xs)
  case Nil
  then show ?case by simp
next
  case (Cons y ys)
  show ?case
  proof (cases "y = x")
    case True
    then show ?thesis by simp
  next
    case False
    with Cons.prems have "x \<in> set ys" by simp
    from Cons.IH [OF this] False show ?thesis
      by (simp add: Let_def nat_add_distrib)
  qed
qed

lemma remove1_takeWhile:
  "x \<in> set xs \<Longrightarrow>
   take (length (takeWhile (\<lambda>y. y \<noteq> x) xs)) xs @ drop (Suc (length (takeWhile (\<lambda>y. y \<noteq> x) xs))) xs
   = remove1 x xs"
  by (induction xs) auto

lemma splice1_present:
  assumes "x \<in> set xs"
  shows "splice1 (arr_indexOf xs x) xs = remove1 x xs"
proof -
  from arr_indexOf_present [OF assms] have i: "0 \<le> arr_indexOf xs x"
    and n: "nat (arr_indexOf xs x) = length (takeWhile (\<lambda>y. y \<noteq> x) xs)" by simp_all
  have "length (takeWhile (\<lambda>y. y \<noteq> x) xs) \<le> length xs"
    by (rule length_takeWhile_le)
  with i n have "min (arr_indexOf xs x) (int (length xs)) = arr_indexOf xs x"
    by linarith
  with i n remove1_takeWhile [OF assms] show ?thesis
    by (simp add: splice1_def Let_def)
qed

lemma splice1_absent:
  assumes "x \<notin> set xs"
  shows "splice1 (arr_indexOf xs x) xs = butlast xs"
proof (cases "xs = []")
  case True
  then show ?thesis by (simp add: splice1_def)
next
  case False
  then have "nat (max (int (length xs) + - 1) 0) = length xs - 1"
    by (cases xs) simp_all
  with False show ?thesis
    using arr_indexOf_absent [OF assms]
    by (simp add: splice1_def Let_def butlast_conv_take)
qed


lemma map_of_const_values:
  "x \<in> fst ` set m \<Longrightarrow> \<forall>p\<in>set m. snd p = v \<Longrightarrow> map_of m x = Some v"
  by (induction m) auto

lemma fold_update_keys:
  "fst ` set (fold (\<lambda>d m. AList.update d v m) arr m0) = set arr \<union> fst ` set m0"
  by (induction arr arbitrary: m0) (auto simp: dom_update)

lemma fold_update_values:
  "\<forall>p\<in>set m0. snd p = v \<Longrightarrow> \<forall>p\<in>set (fold (\<lambda>d m. AList.update d v m) arr m0). snd p = v"
proof (induction arr arbitrary: m0)
  case Nil
  then show ?case by simp
next
  case (Cons d arr)
  have "\<forall>p\<in>set (AList.update d v m0). snd p = v"
    using Cons.prems by (induction m0) auto
  from Cons.IH [OF this] show ?case by simp
qed

lemma fresh_fold_not_added:
  "filter (\<lambda>p. added (snd p)) (fold (\<lambda>d m. AList.update d new_DataStatus m) arr []) = []"
proof -
  have "\<forall>p\<in>set (fold (\<lambda>d m. AList.update d new_DataStatus m) arr []). snd p = new_DataStatus"
    by (rule fold_update_values) simp
  then show ?thesis
    by (auto simp: filter_empty_conv new_DataStatus_def)
qed

lemma update_new_key:
  "k \<notin> fst ` set qs \<Longrightarrow> AList.update k v qs = qs @ [(k, v)]"
  by (induction qs) auto

lemma update_only_added:
  "\<forall>p\<in>set m. \<not> added (snd p) \<Longrightarrow> added v \<Longrightarrow>
   filter (\<lambda>p. added (snd p)) (AList.update k v m) = [(k, v)]"
  by (induction m) auto

lemma update_same_flag:
  "map_of m k = Some st \<Longrightarrow> added v = added st \<Longrightarrow>
   length (filter (\<lambda>p. added (snd p)) (AList.update k v m)) =
   length (filter (\<lambda>p. added (snd p)) m)"
  by (induction m) auto

lemma update_new_not_added:
  "map_of m k = None \<Longrightarrow> \<not> added v \<Longrightarrow>
   length (filter (\<lambda>p. added (snd p)) (AList.update k v m)) =
   length (filter (\<lambda>p. added (snd p)) m)"
  by (induction m) auto

lemma getv_append_old:
  assumes "k \<in> fst ` set qs"
  shows "getv (qs @ rest) k = getv qs k"
proof -
  from assms obtain v where "map_of qs k = Some v"
    by (cases "map_of qs k") (auto simp: map_of_eq_None_iff)
  then show ?thesis by (simp add: getv_def map_add_def)
qed

lemma getv_append_new:
  assumes "k \<notin> fst ` set qs"
  shows "getv (qs @ [(k, v)]) k = v"
proof -
  from assms have "map_of qs k = None" by (simp add: map_of_eq_None_iff)
  then show ?thesis by (simp add: getv_def map_add_def)
qed

lemma prefix_update:
  "prefix h h2 \<Longrightarrow> length h \<le> k \<Longrightarrow> prefix h (h2[k := x])"
  by (auto simp: prefix_def list_update_append)

lemma prefix_nth:
  "prefix h h' \<Longrightarrow> b < length h \<Longrightarrow> h' ! b = h ! b"
  by (auto simp: prefix_def nth_append)

lemma setProp_Inr:
  "setProp h2 (Ref k) (Str p) c = Inr h3 \<Longrightarrow>
   \<exists>qs. k < length h2 \<and> h2 ! k = PlainObj qs \<and> h3 = h2[k := PlainObj (AList.update p c qs)]"
  by (auto simp: setProp_def split: if_splits obj.splits)

subsection \<open>Initialisation\<close>

text \<open>
  C10. \<^verbatim>\<open>ngOnInit\<close> throws an \<^verbatim>\<open>Error\<close> exactly when \<^verbatim>\<open>addable\<close> is set and no
  \<^verbatim>\<open>create\<close> function was supplied; in every other configuration it returns and leaves
  the component as it was.
\<close>

theorem ngOnInit_throws_exactly:
  "(\<exists>m. ngOnInit s = Inl (Error m)) = (addable s \<and> create s = None) \<and>
   (ngOnInit s = Inr s) = (\<not> (addable s \<and> create s = None))"
  by (simp add: ngOnInit_def)

theorem ngOnInit_throws_exactly_witness:
  "(\<exists>m. ngOnInit (init_component\<lparr>addable := True\<rparr>) = Inl (Error m)) \<and>
   ngOnInit init_component = Inr init_component"
  using ngOnInit_throws_exactly [of "init_component\<lparr>addable := True\<rparr>"]
    ngOnInit_throws_exactly [of init_component]
  by (simp add: init_component_def)

subsection \<open>Filtering\<close>

lemma getStringRepresentation_eq:
  assumes "getProp fe h element (getv tcol ''property'') = Inr pv"
  shows "getStringRepresentation fe h tcol element =
     (if truthy (getv tcol ''transform'')
      then callFn fe h (getv tcol ''transform'') [pv, element]
      else toStringMethod pv)"
  using assms by (simp add: getStringRepresentation_def)






subsection \<open>Form controls\<close>

lemma getProp_Inr_iff:
  "getProp fe h ob k = Inr v \<longleftrightarrow>
     (\<exists>a ps p. ob = Ref a \<and> a < length h \<and> h ! a = PlainObj ps \<and> k = Str p \<and>
        (if p \<in> set (map fst ps) then v = getv ps p else inherited fe a p = Inr v))"
  by (auto simp: getProp_def split: val.splits obj.splits)

lemma getFormControl_new:
  assumes "map_of (formControls s) (cellId rowIndex colIndex) = None"
    and "getFormControl fe rowIndex colIndex tcol element s = Inr (s1, c)"
  shows "\<exists>initFn v.
      getProp fe (heap s) (getv tcol ''formField'') (Str ''init'') = Inr initFn \<and>
      (if truthy initFn
       then bindE (getProp fe (heap s) element (getv tcol ''property'')) (\<lambda>pv.
              callFn fe (heap s) initFn [pv, element])
       else getProp fe (heap s) element (getv tcol ''property'')) = Inr v \<and>
      c = \<lparr>cid = nextControlId s, cvalue = fst (fb_control fe (heap s) v),
           cvalid = snd (fb_control fe (heap s) v)\<rparr> \<and>
      s1 = s\<lparr>formControls := formControls s @ [(cellId rowIndex colIndex, c)],
             nextControlId := Suc (nextControlId s)\<rparr>"
proof -
  from assms obtain initFn v where
    i: "getProp fe (heap s) (getv tcol ''formField'') (Str ''init'') = Inr initFn"
    and v: "(if truthy initFn
             then bindE (getProp fe (heap s) element (getv tcol ''property'')) (\<lambda>pv.
                    callFn fe (heap s) initFn [pv, element])
             else getProp fe (heap s) element (getv tcol ''property'')) = Inr v"
    and c: "c = \<lparr>cid = nextControlId s, cvalue = fst (fb_control fe (heap s) v),
                 cvalid = snd (fb_control fe (heap s) v)\<rparr>"
    and s1: "s1 = s\<lparr>formControls := formControls s @
                       [(cellId rowIndex colIndex,
                         \<lparr>cid = nextControlId s, cvalue = fst (fb_control fe (heap s) v),
                          cvalid = snd (fb_control fe (heap s) v)\<rparr>)],
                     nextControlId := Suc (nextControlId s)\<rparr>"
    by (auto simp: getFormControl_def Let_def bindE_eq_Inr)
  from i v c s1 show ?thesis
    by (intro exI [of _ initFn] exI [of _ v]) simp
qed






lemma getFormControl_dataStatus:
  assumes "getFormControl fe rowIndex colIndex tcol element s = Inr (s', c)"
  shows "dataStatus s' = dataStatus s"
proof (cases "map_of (formControls s) (cellId rowIndex colIndex)")
  case None
  from getFormControl_new [OF None assms]
  have "s' = s\<lparr>formControls := formControls s @ [(cellId rowIndex colIndex, c)],
               nextControlId := Suc (nextControlId s)\<rparr>"
    by blast
  then show ?thesis by simp
next
  case (Some y)
  with assms show ?thesis by (simp add: getFormControl_def Let_def)
qed

text \<open>
  The form builder of the examples: a form state that is not a boxed value becomes the
  value of a valid control; the control for the boxed value of \<open>ex_boxed\<close> holds the
  value in the box and is disabled, hence not valid.
\<close>

lemma ex_fb_control_plain: "\<not> isBoxedValue h v \<Longrightarrow> ex_fb_control h v = (v, True)"
  by (simp add: ex_fb_control_def)

lemma getFormControl_boxed_value:
  "(case getFormControl no_fns 2 0 (ex_columns ! 0) (Ref 5) ex_boxed of
      Inl e \<Rightarrow> False
    | Inr (s1, c) \<Rightarrow> cvalue c = Str ''Cy'' \<and> \<not> cvalid c)"
  by code_simp



subsection \<open>Copying an object\<close>

text \<open>
  \<^verbatim>\<open>deepCopy\<close> only adds objects to the heap; the copy of an object is a new object whose
  properties are the copies of the original's properties; a date is copied by its time
  value and an array by its elements, which the copy shares with the original. With
  enough stack, a constructor that returns and the method \<^verbatim>\<open>hasOwnProperty\<close> of
  \<^verbatim>\<open>Object.prototype\<close>, the copy is made.
\<close>

lemma getProp_prefix:
  "prefix h h1 \<Longrightarrow> a < length h \<Longrightarrow> getProp fe h1 (Ref a) k = getProp fe h (Ref a) k"
  by (auto simp: getProp_def prefix_nth dest: prefix_length_le)

lemma getProp_own:
  "a < length h \<Longrightarrow> h ! a = PlainObj ps \<Longrightarrow> p \<in> fst ` set ps \<Longrightarrow>
   getProp fe h (Ref a) (Str p) = Inr (getv ps p)"
  by (simp add: getProp_def)

lemma hasOwnProperty_Inr:
  assumes "hasOwnProperty fe h ob ps pn = Inr own"
  shows "own = (pn \<in> fst ` set ps)"
proof -
  from assms obtain m where
    "(case m of
        Fun f \<Rightarrow> if f = objectHasOwnProperty fe then Inr (pn \<in> set (map fst ps))
                 else Inl Unsupported
      | _ \<Rightarrow> Inl TypeError) = Inr own"
    by (auto simp: hasOwnProperty_def bindE_eq_Inr)
  then show ?thesis
    by (cases m) (simp_all split: if_splits)
qed

lemma deepCopy_PlainObj:
  "a < length h \<Longrightarrow> h ! a = PlainObj ps \<Longrightarrow>
   deepCopy fe (Suc n) h (Ref a) =
     bindE (newLike fe h (Ref a)) (\<lambda>clonedObj.
     bindE (fold (copyProp fe (deepCopy fe n) (Ref a) ps (length h)) (forIn fe a ps)
              (Inr (h @ [PlainObj clonedObj]))) (\<lambda>h'.
       Inr (h', Ref (length h))))"
  by (simp add: copyProp_def bindE_def)

lemma copyProp_Inl [simp]: "copyProp fe g ob ps k pn (Inl e) = Inl e"
  by (simp add: copyProp_def)

lemma copyProp_Inr:
  assumes "copyProp fe g ob ps k pn (Inr h1) = Inr h3"
  shows "(pn \<notin> fst ` set ps \<and> h3 = h1) \<or>
         (pn \<in> fst ` set ps \<and>
          (\<exists>v h2 c. getProp fe h1 ob (Str pn) = Inr v \<and> g h1 v = Inr (h2, c) \<and>
             setProp h2 (Ref k) (Str pn) c = Inr h3))"
proof -
  from assms obtain own where own: "hasOwnProperty fe h1 ob ps pn = Inr own"
    by (auto simp: copyProp_def split: sum.splits)
  show ?thesis
  proof (cases own)
    case True
    with assms own hasOwnProperty_Inr [OF own] show ?thesis
      by (auto simp: copyProp_def split: sum.splits)
  next
    case False
    with assms own hasOwnProperty_Inr [OF own] show ?thesis
      by (auto simp: copyProp_def)
  qed
qed

lemma copy_loop_Inl:
  "fold (copyProp fe g ob ps k) props (Inl e) = Inl e"
  by (induction props) simp_all

lemma copy_loop_Inr:
  "fold (copyProp fe g ob ps k) props acc = Inr h' \<Longrightarrow> \<exists>h1. acc = Inr h1"
  by (cases acc) (simp_all add: copy_loop_Inl)

lemma copy_loop_skip:
  "set props \<inter> fst ` set ps = {} \<Longrightarrow>
   fold (copyProp fe g ob ps k) props (Inr h1) = Inr h' \<Longrightarrow> h' = h1"
proof (induction props)
  case Nil
  then show ?case by simp
next
  case (Cons pn props)
  from Cons.prems(2) copy_loop_Inr [of fe g ob ps k props "copyProp fe g ob ps k pn (Inr h1)" h']
  obtain h3 where h3: "copyProp fe g ob ps k pn (Inr h1) = Inr h3" by auto
  from copyProp_Inr [OF h3] Cons.prems(1) have "h3 = h1" by auto
  with Cons.IH Cons.prems h3 show ?case by simp
qed

lemma copy_loop_prefix:
  assumes g: "\<And>h1 v h2 c. g h1 v = Inr (h2, c) \<Longrightarrow> prefix h1 h2"
    and k: "length h \<le> k"
  shows "prefix h h1 \<Longrightarrow> fold (copyProp fe g ob ps k) props (Inr h1) = Inr h' \<Longrightarrow> prefix h h'"
proof (induction props arbitrary: h1)
  case Nil
  then show ?case by simp
next
  case (Cons pn props)
  show ?case
  proof (cases "copyProp fe g ob ps k pn (Inr h1)")
    case (Inl e)
    with Cons.prems(2) show ?thesis by (simp add: copy_loop_Inl)
  next
    case (Inr h3)
    have "prefix h h3"
      using copyProp_Inr [OF Inr]
    proof
      assume "pn \<notin> fst ` set ps \<and> h3 = h1"
      with Cons.prems(1) show ?thesis by simp
    next
      assume "pn \<in> fst ` set ps \<and>
          (\<exists>v h2 c. getProp fe h1 ob (Str pn) = Inr v \<and> g h1 v = Inr (h2, c) \<and>
             setProp h2 (Ref k) (Str pn) c = Inr h3)"
      then obtain v h2 c where c: "g h1 v = Inr (h2, c)"
        and s: "setProp h2 (Ref k) (Str pn) c = Inr h3" by blast
      from g [OF c] Cons.prems(1) have "prefix h h2" by (rule prefix_order.trans [rotated])
      with setProp_Inr [OF s] k show ?thesis by (auto intro: prefix_update)
    qed
    from Cons.IH [OF this] Cons.prems(2) Inr show ?thesis by simp
  qed
qed

lemma deepCopy_prefix:
  "deepCopy fe n h ob = Inr (h', ob') \<Longrightarrow> prefix h h'"
proof (induction n arbitrary: h ob h' ob')
  case 0
  then show ?case by simp
next
  case (Suc n)
  show ?case
  proof (cases ob)
    case (Ref a)
    with Suc.prems have a: "a < length h" by (simp split: if_splits)
    show ?thesis
    proof (cases "h ! a")
      case (DateObj t)
      with Suc.prems Ref a show ?thesis by auto
    next
      case (ArrayObj xs)
      with Suc.prems Ref a show ?thesis by auto
    next
      case (PlainObj ps)
      from Suc.prems Ref obtain cl where
        "fold (copyProp fe (deepCopy fe n) (Ref a) ps (length h)) (forIn fe a ps)
           (Inr (h @ [PlainObj cl])) = Inr h'"
        unfolding Ref deepCopy_PlainObj [OF a PlainObj] by (auto simp: bindE_eq_Inr)
      from copy_loop_prefix [where g = "deepCopy fe n" and h = h, OF Suc.IH _ _ this]
      show ?thesis by simp
    qed
  qed (use Suc.prems in auto)
qed








lemma deepCopy_primitive:
  "(\<forall>a. ob \<noteq> Ref a) \<Longrightarrow> deepCopy fe (Suc n) h ob = Inr (h, ob)"
  by (cases ob) simp_all

lemma deepCopy_Date:
  "a < length h \<Longrightarrow> h ! a = DateObj t \<Longrightarrow>
   deepCopy fe (Suc n) h (Ref a) = Inr (h @ [DateObj t], Ref (length h))"
  by simp

lemma deepCopy_Array:
  "a < length h \<Longrightarrow> h ! a = ArrayObj xs \<Longrightarrow>
   deepCopy fe (Suc n) h (Ref a) = Inr (h @ [ArrayObj xs], Ref (length h))"
  by simp

text \<open>
  A constructor that is not a function, and a method \<^verbatim>\<open>hasOwnProperty\<close> that is not
  one, make \<^verbatim>\<open>deepCopy\<close> throw a \<^verbatim>\<open>TypeError\<close>.
\<close>

lemma deepCopy_constructor_TypeError:
  assumes "a < length h" and "h ! a = PlainObj ps"
    and "getProp fe h (Ref a) (Str ''constructor'') = Inr c" and "\<forall>f. c \<noteq> Fun f"
  shows "deepCopy fe (Suc n) h (Ref a) = Inl TypeError"
  using assms(3,4) unfolding deepCopy_PlainObj [OF assms(1,2)]
  by (cases c) (simp_all add: newLike_def)

lemma deepCopy_hasOwnProperty_TypeError:
  assumes "a < length h" and "h ! a = PlainObj ((pn, v) # ps)"
    and "newLike fe h (Ref a) = Inr cl"
    and "getProp fe h (Ref a) (Str ''hasOwnProperty'') = Inr m" and "\<forall>f. m \<noteq> Fun f"
  shows "deepCopy fe (Suc n) h (Ref a) = Inl TypeError"
proof -
  have p: "prefix h (h @ [PlainObj cl])" by simp
  have "hasOwnProperty fe (h @ [PlainObj cl]) (Ref a) ((pn, v) # ps) pn = Inl TypeError"
    using assms(4,5) by (cases m) (simp_all add: hasOwnProperty_def getProp_prefix [OF p assms(1)])
  then have "copyProp fe (deepCopy fe n) (Ref a) ((pn, v) # ps) (length h) pn
      (Inr (h @ [PlainObj cl])) = Inl TypeError"
    by (simp add: copyProp_def)
  then show ?thesis
    unfolding deepCopy_PlainObj [OF assms(1,2)]
    by (simp add: assms(3) copy_loop_Inl forIn_def)
qed

lemma copy_loop_props:
  assumes a: "a < length h" and row: "h ! a = PlainObj ps"
  shows "fold (copyProp fe (deepCopy fe n) (Ref a) ps (length h)) props (Inr hc) = Inr h' \<Longrightarrow>
     set props \<subseteq> fst ` set ps \<Longrightarrow>
     prefix h hc \<Longrightarrow> length h < length hc \<Longrightarrow> hc ! length h = PlainObj qs \<Longrightarrow>
     distinct props \<Longrightarrow> set props \<inter> fst ` set qs = {} \<Longrightarrow>
     \<exists>qs'. h' ! length h = PlainObj qs' \<and> map fst qs' = map fst qs @ props \<and>
       (\<forall>k\<in>set props. \<exists>hA hB. prefix h hA \<and> deepCopy fe n hA (getv ps k) = Inr (hB, getv qs' k)) \<and>
       (\<forall>k\<in>fst ` set qs. getv qs' k = getv qs k)"
proof (induction props arbitrary: hc qs)
  case Nil
  then show ?case by simp
next
  case (Cons pn props)
  from Cons.prems(2) have own: "pn \<in> fst ` set ps" by simp
  from Cons.prems(3) a row have row': "a < length hc" "hc ! a = PlainObj ps"
    by (auto simp: prefix_nth dest: prefix_length_le)
  have g: "getProp fe hc (Ref a) (Str pn) = Inr (getv ps pn)"
    using row' own by (rule getProp_own)
  show ?case
  proof (cases "copyProp fe (deepCopy fe n) (Ref a) ps (length h) pn (Inr hc)")
    case (Inl e)
    with Cons.prems(1) show ?thesis by (simp add: copy_loop_Inl)
  next
    case (Inr h3)
    from copyProp_Inr [OF Inr] own g obtain h2 c where
      c: "deepCopy fe n hc (getv ps pn) = Inr (h2, c)"
      and sp: "setProp h2 (Ref (length h)) (Str pn) c = Inr h3"
      by auto
    from deepCopy_prefix [OF c] have p12: "prefix hc h2" .
    with Cons.prems(4,5) have k2: "length h < length h2" "h2 ! length h = PlainObj qs"
      by (auto simp: prefix_nth dest: prefix_length_le)
    from Cons.prems(7) have new: "pn \<notin> fst ` set qs" by auto
    from sp k2 have h3: "h3 = h2[length h := PlainObj (qs @ [(pn, c)])]"
      by (simp add: setProp_def update_new_key [OF new] split: if_splits)
    have p3: "prefix h h3"
      unfolding h3 using Cons.prems(3) p12 by (auto intro: prefix_update prefix_order.trans)
    have l3: "length h < length h3" and c3: "h3 ! length h = PlainObj (qs @ [(pn, c)])"
      using k2 by (simp_all add: h3)
    have d: "distinct props" and disj: "set props \<inter> fst ` set (qs @ [(pn, c)]) = {}"
      and sub: "set props \<subseteq> fst ` set ps"
      using Cons.prems(2,6,7) by auto
    from Cons.prems(1) Inr have
      "fold (copyProp fe (deepCopy fe n) (Ref a) ps (length h)) props (Inr h3) = Inr h'"
      by simp
    from Cons.IH [OF this sub p3 l3 c3 d disj] obtain qs' where
      q1: "h' ! length h = PlainObj qs'" and q2: "map fst qs' = map fst (qs @ [(pn, c)]) @ props"
      and q3: "\<forall>k\<in>set props. \<exists>hA hB. prefix h hA \<and> deepCopy fe n hA (getv ps k) = Inr (hB, getv qs' k)"
      and q4: "\<forall>k\<in>fst ` set (qs @ [(pn, c)]). getv qs' k = getv (qs @ [(pn, c)]) k"
      by blast
    from q4 have "getv qs' pn = getv (qs @ [(pn, c)]) pn" by simp
    with new have "getv qs' pn = c" by (simp add: getv_append_new)
    with c Cons.prems(3) have here:
      "\<exists>hA hB. prefix h hA \<and> deepCopy fe n hA (getv ps pn) = Inr (hB, getv qs' pn)"
      by blast
    have old: "\<forall>k\<in>fst ` set qs. getv qs' k = getv qs k"
    proof
      fix k assume k: "k \<in> fst ` set qs"
      then have "k \<in> fst ` set (qs @ [(pn, c)])" by auto
      with q4 have "getv qs' k = getv (qs @ [(pn, c)]) k" by blast
      with k show "getv qs' k = getv qs k" by (simp add: getv_append_old)
    qed
    from q1 q2 q3 here old show ?thesis by auto
  qed
qed

text \<open>
  The copy of an object whose constructor makes an object without own properties: it
  has the properties of the original, in their order, each holding the copy of the
  original's value.
\<close>

lemma deepCopy_object:
  assumes run: "deepCopy fe (Suc n) h (Ref a) = Inr (h', ob')"
    and row: "h ! a = PlainObj ps" and keys: "distinct (map fst ps)"
    and cl: "newLike fe h (Ref a) = Inr []"
  shows "\<exists>qs. h' ! length h = PlainObj qs \<and> map fst qs = map fst ps \<and>
           (\<forall>k\<in>fst ` set ps.
              \<exists>hA hB. prefix h hA \<and> deepCopy fe n hA (getv ps k) = Inr (hB, getv qs k))"
proof -
  from run have a: "a < length h" by (simp split: if_splits)
  let ?inh = "filter (\<lambda>prop. prop \<notin> set (map fst ps)) (enumerable fe a)"
  from run cl have all:
    "fold (copyProp fe (deepCopy fe n) (Ref a) ps (length h)) ?inh
       (fold (copyProp fe (deepCopy fe n) (Ref a) ps (length h)) (map fst ps)
          (Inr (h @ [PlainObj []]))) = Inr h'"
    unfolding deepCopy_PlainObj [OF a row] by (auto simp: bindE_eq_Inr forIn_def)
  from copy_loop_Inr [OF all] obtain h1 where own:
    "fold (copyProp fe (deepCopy fe n) (Ref a) ps (length h)) (map fst ps)
       (Inr (h @ [PlainObj []])) = Inr h1"
    by blast
  have "set ?inh \<inter> fst ` set ps = {}" by auto
  from copy_loop_skip [OF this all [unfolded own]] have "h' = h1" .
  with copy_loop_props [OF a row own, of "[]"] keys show ?thesis
    by auto
qed

subsection \<open>Saving a row\<close>

text \<open>
  C4. If one of the controls of row \<open>rowIndex\<close> (a control whose key is the row index,
  an underscore and a column index) is invalid, \<^verbatim>\<open>saveElement\<close> returns without emitting
  an event and leaves the whole state as it was: the data array, the row-status map,
  the control map and \<^verbatim>\<open>currentlyAdding\<close>.
\<close>

theorem saveElement_invalid_atomic:
  assumes "(cellId rowIndex colIndex, c) \<in> set (formControls s)" and "\<not> cvalid c"
  shows "saveElement stack fe rowIndex oldElement s = Inr (s, [])"
proof -
  have "(keyCol (cellId rowIndex colIndex), c) \<in> set (rowControls rowIndex (formControls s))"
    unfolding rowControls_def set_map set_filter
    using assms(1) startsWith_cellId [of rowIndex colIndex]
    by (intro image_eqI [where x = "(cellId rowIndex colIndex, c)"]) simp_all
  with assms(2) have "list_ex (\<lambda>c. \<not> cvalid (snd c)) (rowControls rowIndex (formControls s))"
    unfolding list_ex_iff
    by (intro bexI [where x = "(keyCol (cellId rowIndex colIndex), c)"]) simp_all
  then show ?thesis
    by (simp add: saveElement_def)
qed

theorem saveElement_invalid_atomic_witness:
  "(cellId 1 0, \<lparr>cid = 0, cvalue = Str [], cvalid = False\<rparr>) \<in> set (formControls ex_invalid) \<and>
   \<not> cvalid \<lparr>cid = 0, cvalue = Str [], cvalid = False\<rparr> \<and>
   saveElement 2 no_fns 1 (Ref 2) ex_invalid = Inr (ex_invalid, [])"
proof -
  have m: "(cellId 1 0, \<lparr>cid = 0, cvalue = Str [], cvalid = False\<rparr>) \<in> set (formControls ex_invalid)"
    unfolding cellId_1_0 by (simp add: ex_invalid_def)
  have v: "\<not> cvalid \<lparr>cid = 0, cvalue = Str [], cvalid = False\<rparr>"
    by simp
  from saveElement_invalid_atomic [OF m v, of 2 no_fns "Ref 2"] m v show ?thesis
    by simp
qed

text \<open>
  C2. Rows 1 and 10 are being edited. The keys of both controls, \<^verbatim>\<open>1_0\<close> and \<^verbatim>\<open>10_0\<close>,
  start with \<^verbatim>\<open>1\<close>, so \<^verbatim>\<open>saveElement\<close> for row 1 collects the control of row 10 as
  well and the element it emits carries the value typed into row 10.
\<close>

theorem saveElement_collects_other_rows:
  "rowControls 1 (formControls ex_two_rows_editing) =
     [(Inr (Some 0), \<lparr>cid = 0, cvalue = Str ''mine'', cvalid = True\<rparr>),
      (Inr (Some 0), \<lparr>cid = 1, cvalue = Str ''other'', cvalid = True\<rparr>)] \<and>
   map fst (formControls ex_two_rows_editing) = [cellId 1 0, cellId 10 0] \<and>
   (case saveElement 2 no_fns 1 (Ref 2) ex_two_rows_editing of
      Inl e \<Rightarrow> False
    | Inr (s', evs) \<Rightarrow>
        evs = [EditEvent (Ref 13)] \<and> heap s' ! 13 = PlainObj [(''name'', Str ''other'')])"
  by code_simp








lemma saveElement_dataStatus:
  assumes "saveElement stack fe rowIndex oldElement s = Inr (s', evs)"
  shows "dataStatus s' = dataStatus s"
proof (cases "list_ex (\<lambda>c. \<not> cvalid (snd c)) (rowControls rowIndex (formControls s))")
  case True
  with assms show ?thesis by (simp add: saveElement_def)
next
  case False
  with assms obtain element h2 where
    "(case map_of (dataStatus s) oldElement of
          None \<Rightarrow> Inl TypeError
        | Some st \<Rightarrow>
            if added st then
              bindE (getArray h2 (data s)) (\<lambda>arr.
                Inr (s\<lparr>heap := setArray h2 (data s) (shift arr), currentlyAdding := False\<rparr>,
                     [AddEvent element]))
            else Inr (s\<lparr>heap := h2\<rparr>, [EditEvent element])) = Inr (s', evs)"
    by (auto simp: saveElement_def Let_def bindE_eq_Inr)
  then show ?thesis
    by (cases "map_of (dataStatus s) oldElement") (auto simp: bindE_eq_Inr split: if_splits)
qed

text \<open>
  A row whose own property \<^verbatim>\<open>constructor\<close>, or \<^verbatim>\<open>hasOwnProperty\<close>, is not a function
  cannot be copied: \<^verbatim>\<open>saveElement\<close> throws a \<^verbatim>\<open>TypeError\<close>.
\<close>

lemma saveElement_own_constructor_throws:
  "(case saveElement 2 no_fns 1 (Ref 2) ex_own_constructor of
      Inl e \<Rightarrow> e = TypeError
    | Inr r \<Rightarrow> False)"
  by code_simp

lemma saveElement_own_hasOwnProperty_throws:
  "(case saveElement 2 no_fns 1 (Ref 2) ex_own_hasOwnProperty of
      Inl e \<Rightarrow> e = TypeError
    | Inr r \<Rightarrow> False)"
  by code_simp



subsection \<open>Changes of the data\<close>

text \<open>
  \<^verbatim>\<open>clearAddedEntry\<close> splices the data array once for every row marked \<^verbatim>\<open>added\<close> and
  deletes the last of them from the row-status map. A pending row that is in the array
  is removed from it; for one that is not, the last row of the array is removed.
\<close>

lemma clearAddedEntry_fold_eq:
  assumes "a < length h0"
  shows "fold (\<lambda>(key, value) acc.
              bindE acc (\<lambda>(toDelete, h).
                if added value
                then bindE (getArray h (Ref a)) (\<lambda>arr.
                       Inr (key, setArray h (Ref a) (splice1 (arr_indexOf arr key) arr)))
                else Inr (toDelete, h)))
       ds (Inr (td0, h0[a := ArrayObj xs]))
     = Inr (last (td0 # map fst (filter (\<lambda>p. added (snd p)) ds)),
            h0[a := ArrayObj (fold (\<lambda>key arr. splice1 (arr_indexOf arr key) arr)
                                (map fst (filter (\<lambda>p. added (snd p)) ds)) xs)])"
proof (induction ds arbitrary: td0 xs)
  case Nil
  then show ?case by simp
next
  case (Cons p ds)
  obtain key st where p: "p = (key, st)" by (cases p)
  show ?case
  proof (cases "added st")
    case True
    have "getArray (h0[a := ArrayObj xs]) (Ref a) = Inr xs"
      using assms by (simp add: getArray_def)
    with True p Cons.IH [of key "splice1 (arr_indexOf xs key) xs"] show ?thesis
      by (simp add: setArray_def)
  next
    case False
    with p Cons.IH [of td0 xs] show ?thesis by simp
  qed
qed

lemma clearAddedEntry_eq:
  assumes "data s = Ref a" and "a < length (heap s)" and "heap s ! a = ArrayObj xs"
  shows "clearAddedEntry s =
     Inr (let h = (heap s)[a := ArrayObj (fold (\<lambda>key arr. splice1 (arr_indexOf arr key) arr)
                                            (addedRows s) xs)];
              toDelete = last (Undefined # addedRows s)
          in if truthy toDelete
             then s\<lparr>heap := h, dataStatus := AList.delete toDelete (dataStatus s)\<rparr>
             else s\<lparr>heap := h\<rparr>)"
proof -
  have h: "heap s = (heap s)[a := ArrayObj xs]"
    using assms(3) by (metis list_update_id)
  have "fold (\<lambda>(key, value) acc.
              bindE acc (\<lambda>(toDelete, h).
                if added value
                then bindE (getArray h (Ref a)) (\<lambda>arr.
                       Inr (key, setArray h (Ref a) (splice1 (arr_indexOf arr key) arr)))
                else Inr (toDelete, h)))
       (dataStatus s) (Inr (Undefined, heap s))
     = Inr (last (Undefined # addedRows s),
            (heap s)[a := ArrayObj (fold (\<lambda>key arr. splice1 (arr_indexOf arr key) arr)
                                (addedRows s) xs)])"
    using clearAddedEntry_fold_eq [OF assms(2), of "dataStatus s" Undefined xs] h
    by (simp add: addedRows_def)
  then show ?thesis
    unfolding clearAddedEntry_def assms(1) by (simp add: Let_def)
qed

lemma clearAddedEntry_ok:
  assumes "data s = Ref a" and "a < length (heap s)" and "heap s ! a = ArrayObj xs"
  shows "\<exists>s1 ys. clearAddedEntry s = Inr s1 \<and> heap s1 = (heap s)[a := ArrayObj ys] \<and>
           data s1 = data s \<and> columns s1 = columns s \<and> matSort s1 = matSort s \<and>
           paginator s1 = paginator s \<and> sorting s1 = sorting s"
  by (auto simp: clearAddedEntry_eq [OF assms] Let_def)

lemma clearAddedEntry_pending:
  assumes "data s = Ref a" and "a < length (heap s)" and "heap s ! a = ArrayObj xs"
    and "addedRows s = [key]" and "truthy key"
  shows "\<exists>s'. clearAddedEntry s = Inr s' \<and>
           dataStatus s' = AList.delete key (dataStatus s) \<and>
           getArray (heap s') (data s') =
             Inr (if key \<in> set xs then remove1 key xs else butlast xs)"
  using assms
  by (simp add: clearAddedEntry_eq [OF assms(1,2,3)] Let_def getArray_def
      splice1_present splice1_absent)

lemma columnIds_fold:
  "\<forall>p\<in>set ps. \<exists>q. getv (snd p) ''property'' = Str q \<Longrightarrow>
   \<exists>ids. fold (\<lambda>(i, col) acc.
        bindE acc (\<lambda>ids. bindE (toStringCoerce (getv col ''property'')) (\<lambda>p.
          Inr (ids @ [toString_nat i @ ''_'' @ p]))))
       ps (Inr acc0) = Inr ids"
proof (induction ps arbitrary: acc0)
  case Nil
  then show ?case by simp
next
  case (Cons p ps)
  obtain i col where p: "p = (i, col)" by (cases p)
  from Cons.prems p obtain q where q: "getv col ''property'' = Str q" by auto
  from Cons.prems have "\<forall>p\<in>set ps. \<exists>q. getv (snd p) ''property'' = Str q" by simp
  from Cons.IH [OF this, of "acc0 @ [toString_nat i @ ''_'' @ q]"] p q
  show ?case by simp
qed

lemma columnIds_ok:
  assumes "\<forall>col\<in>set cols. \<exists>q. getv col ''property'' = Str q"
  shows "\<exists>ids. columnIds (getDisplayedCols cols) = Inr ids"
proof -
  have "\<forall>p\<in>set (zip [0..<length (getDisplayedCols cols)] (getDisplayedCols cols)).
          \<exists>q. getv (snd p) ''property'' = Str q"
    using assms by (auto simp: getDisplayedCols_def dest!: set_zip_rightD)
  from columnIds_fold [OF this, of "[]"] show ?thesis
    by (simp add: columnIds_def)
qed

lemma recreateDataSource_ok:
  assumes "columns s = Some cols" and "data s = Ref a"
    and "\<forall>col\<in>set cols. \<exists>q. getv col ''property'' = Str q"
  shows "\<exists>s1 ds. recreateDataSource s = Inr s1 \<and> dataSource s1 = Some ds \<and>
           ds_data ds = Ref a \<and> heap s1 = heap s \<and> data s1 = data s \<and>
           matSort s1 = matSort s \<and> columns s1 = columns s"
proof -
  from columnIds_ok [OF assms(3)] obtain ids where "columnIds (getDisplayedCols cols) = Inr ids"
    by blast
  then show ?thesis
    using assms(1,2) by (simp add: recreateDataSource_def)
qed

lemma cleanUpAfterDataChange_ok:
  assumes "data s = Ref a" and "a < length (heap s)" and "heap s ! a = ArrayObj arr"
    and "dataSource s = Some ds" and "ds_data ds = Ref a"
    and "\<And>h ys m. set (sortData h ys m) = set ys"
  shows "\<exists>s' xs'. cleanUpAfterDataChange sortData cc s = Inr s' \<and> data s' = Ref a \<and>
           a < length (heap s') \<and> heap s' ! a = ArrayObj xs' \<and> set xs' = set arr \<and>
           dataStatus s' = fold (\<lambda>d m. AList.update d new_DataStatus m) arr [] \<and>
           formControls s' = [] \<and> \<not> currentlyAdding s'"
proof -
  have ga: "getArray (heap s) (Ref a) = Inr arr"
    using assms(2,3) by (rule getArray_Ref)
  show ?thesis
  proof (cases "active (matSort s) = []")
    case True
    then show ?thesis
      using assms(1,2,3) ga by (simp add: cleanUpAfterDataChange_def Let_def)
  next
    case False
    show ?thesis
    proof (cases cc)
      case True
      with False show ?thesis
        using assms(1,2,3) ga
        by (simp add: cleanUpAfterDataChange_def Let_def turnOffSorting_def)
    next
      case cc: False
      with False show ?thesis
        using assms ga
        by (simp add: cleanUpAfterDataChange_def Let_def setArray_def)
    qed
  qed
qed

lemma cleanUpAfterDataChange_dataStatus:
  assumes "cleanUpAfterDataChange sortData cc s = Inr s'"
  shows "\<exists>arr. dataStatus s' = fold (\<lambda>d m. AList.update d new_DataStatus m) arr []"
proof -
  from assms obtain arr where arr: "getArray (heap s) (data s) = Inr arr"
    by (cases "getArray (heap s) (data s)") (simp_all add: cleanUpAfterDataChange_def)
  define s1 where "s1 = s\<lparr>dataStatus := fold (\<lambda>d m. AList.update d new_DataStatus m) arr [],
                  formControls := []\<rparr>"
  have run: "bindE (if active (matSort s1) \<noteq> [] then
                   (if cc then Inr (turnOffSorting s1)
                    else (case dataSource s1 of
                            None \<Rightarrow> Inl TypeError
                          | Some ds \<Rightarrow>
                              bindE (getArray (heap s1) (ds_data ds)) (\<lambda>xs.
                                Inr (s1\<lparr>heap := setArray (heap s1) (ds_data ds)
                                                  (sortData (heap s1) xs (matSort s1))\<rparr>))))
                 else Inr s1)
            (\<lambda>s2. Inr (s2\<lparr>currentlyAdding := False\<rparr>)) = Inr s'"
    using assms arr unfolding cleanUpAfterDataChange_def s1_def by (simp add: Let_def)
  have d1: "dataStatus s1 = fold (\<lambda>d m. AList.update d new_DataStatus m) arr []"
    by (simp add: s1_def)
  have "dataStatus s' = dataStatus s1"
  proof (cases "active (matSort s1) = []")
    case True
    with run show ?thesis by auto
  next
    case False
    show ?thesis
    proof (cases cc)
      case True
      with False run show ?thesis by (auto simp: turnOffSorting_def)
    next
      case nc: False
      show ?thesis
      proof (cases "dataSource s1")
        case None
        with False nc run show ?thesis by simp
      next
        case (Some ds)
        with False nc run show ?thesis by (auto simp: bindE_eq_Inr)
      qed
    qed
  qed
  with d1 show ?thesis by auto
qed

text \<open>
  C3. When \<^verbatim>\<open>ngOnChanges\<close> sees a change of \<^verbatim>\<open>data\<close>, it returns and afterwards the keys
  of the row-status map are exactly the elements of the current data array, each mapped
  to a new status that is neither editing nor added, the control map is empty and
  \<^verbatim>\<open>currentlyAdding\<close> is false. The data input is an array, the columns are set and
  name their property by a string, and the library's sort permutes the array.
\<close>

theorem ngOnChanges_restores_clean_state:
  assumes "ch_data changes"
    and "data s = Ref a" and "a < length (heap s)" and "heap s ! a = ArrayObj xs"
    and "columns s = Some cols"
    and "\<forall>col\<in>set cols. \<exists>q. getv col ''property'' = Str q"
    and "\<And>h ys m. set (sortData h ys m) = set ys"
  shows "\<exists>s' xs'. ngOnChanges sortData changes s = Inr s' \<and>
           getArray (heap s') (data s') = Inr xs' \<and>
           fst ` set (dataStatus s') = set xs' \<and>
           (\<forall>x\<in>set xs'. map_of (dataStatus s') x = Some new_DataStatus) \<and>
           (\<forall>p\<in>set (dataStatus s'). \<not> editing (snd p) \<and> \<not> added (snd p)) \<and>
           formControls s' = [] \<and> \<not> currentlyAdding s'"
proof -
  from clearAddedEntry_ok [OF assms(2,3,4)] obtain s1 ys where
    s1: "clearAddedEntry s = Inr s1" "heap s1 = (heap s)[a := ArrayObj ys]"
      "data s1 = data s" "columns s1 = columns s"
    by blast
  from recreateDataSource_ok [of s1 cols a] s1 assms(2,5,6) obtain s2 ds where
    s2: "recreateDataSource s1 = Inr s2" "dataSource s2 = Some ds" "ds_data ds = Ref a"
      "heap s2 = heap s1" "data s2 = data s1"
    by auto
  have a2: "a < length (heap s2)" and arr2: "heap s2 ! a = ArrayObj ys"
    using s2(4) s1(2) assms(3) by simp_all
  have d2: "data s2 = Ref a"
    using s2(5) s1(3) assms(2) by simp
  from cleanUpAfterDataChange_ok [where sortData = sortData and cc = "ch_columns changes",
      OF d2 a2 arr2 s2(2,3) assms(7)]
  obtain s' xs' where
    s': "cleanUpAfterDataChange sortData (ch_columns changes) s2 = Inr s'" "data s' = Ref a"
      "a < length (heap s')" "heap s' ! a = ArrayObj xs'" "set xs' = set ys"
      "dataStatus s' = fold (\<lambda>d m. AList.update d new_DataStatus m) ys []"
      "formControls s' = []" "\<not> currentlyAdding s'"
    by blast
  have run: "ngOnChanges sortData changes s = Inr s'"
    using assms(1) s1(1) s2(1) s'(1) by (simp add: ngOnChanges_def)
  have arr: "getArray (heap s') (data s') = Inr xs'"
    using s'(2,3,4) by (simp add: getArray_Ref)
  have keys: "fst ` set (dataStatus s') = set xs'"
    using s'(5,6) by (simp add: fold_update_keys)
  have vals: "\<forall>p\<in>set (dataStatus s'). snd p = new_DataStatus"
    unfolding s'(6) by (rule fold_update_values) simp
  have fresh: "\<forall>x\<in>set xs'. map_of (dataStatus s') x = Some new_DataStatus"
    using keys vals map_of_const_values by metis
  have clean: "\<forall>p\<in>set (dataStatus s'). \<not> editing (snd p) \<and> \<not> added (snd p)"
    using vals by (simp add: new_DataStatus_def)
  from run arr keys fresh clean s'(7,8) show ?thesis by blast
qed

theorem ngOnChanges_restores_clean_state_witness:
  "ch_data \<lparr>ch_data = True, ch_columns = False\<rparr> \<and>
   data ex_editing = Ref 0 \<and> 0 < length (heap ex_editing) \<and>
   heap ex_editing ! 0 = ArrayObj [Ref 1, Ref 2] \<and>
   columns ex_editing = Some ex_columns \<and>
   list_all (\<lambda>col. \<exists>q. getv col ''property'' = Str q) ex_columns \<and>
   (\<forall>h ys m. set (keep_order h ys m) = set ys) \<and>
   (\<exists>s' xs'. ngOnChanges keep_order \<lparr>ch_data = True, ch_columns = False\<rparr> ex_editing = Inr s' \<and>
           getArray (heap s') (data s') = Inr xs' \<and>
           fst ` set (dataStatus s') = set xs' \<and>
           (\<forall>x\<in>set xs'. map_of (dataStatus s') x = Some new_DataStatus) \<and>
           (\<forall>p\<in>set (dataStatus s'). \<not> editing (snd p) \<and> \<not> added (snd p)) \<and>
           formControls s' = [] \<and> \<not> currentlyAdding s')"
proof -
  have c: "ch_data \<lparr>ch_data = True, ch_columns = False\<rparr>" by simp
  have d: "data ex_editing = Ref 0"
    by (simp add: ex_editing_def ex_component_def init_component_def)
  have l: "0 < length (heap ex_editing)"
    by (simp add: ex_editing_def ex_component_def init_component_def ex_heap_def)
  have a: "heap ex_editing ! 0 = ArrayObj [Ref 1, Ref 2]"
    by (simp add: ex_editing_def ex_component_def init_component_def ex_heap_def)
  have cols: "columns ex_editing = Some ex_columns"
    by (simp add: ex_editing_def ex_component_def init_component_def)
  have props: "\<forall>col\<in>set ex_columns. \<exists>q. getv col ''property'' = Str q"
    by (simp add: ex_columns_def getv_def)
  have perm: "\<And>h ys m. set (keep_order h ys m) = set ys"
    by (simp add: keep_order_def)
  have props': "list_all (\<lambda>col. \<exists>q. getv col ''property'' = Str q) ex_columns"
    using props by (simp add: list_all_iff)
  from ngOnChanges_restores_clean_state [where sortData = keep_order, OF c d l a cols props perm]
    c d l a cols props' perm
  show ?thesis by blast
qed

subsection \<open>Changes of the columns\<close>

text \<open>
  What \<^verbatim>\<open>checkForDifferences\<close> computes: the arrays differ in length, or some key of a
  saved copy has another value in the current column. \<^verbatim>\<open>ngDoCheck\<close> rebuilds exactly
  when it answers \<^verbatim>\<open>true\<close>.
\<close>

lemma checkForDifferences_iff:
  assumes "columns s = Some cols"
  shows "checkForDifferences s =
     Inr (length (oldColumns s) \<noteq> length cols \<or>
          (\<exists>i<length (oldColumns s). \<exists>key\<in>fst ` set (oldColumns s ! i).
             getv (oldColumns s ! i) key \<noteq> getv (cols ! i) key))"
  using assms by (auto simp: checkForDifferences_def list_ex_iff)

lemma ngDoCheck_unchanged:
  "checkForDifferences s = Inr False \<Longrightarrow> ngDoCheck s = Inr s"
  by (simp add: ngDoCheck_def)

lemma ngDoCheck_rebuilds:
  "checkForDifferences s = Inr True \<Longrightarrow>
   ngDoCheck s =
     bindE (prepareForColChange s) (\<lambda>s1. bindE (recreateDataSource s1) cleanUpAfterColChange)"
  by (simp add: ngDoCheck_def)

text \<open>
  C1. The name column was given a \<^verbatim>\<open>transform\<close> after its copy was saved. The column now
  has a property whose value differs from the saved copy's (which has none), so the
  columns differ in the spec's sense; \<^verbatim>\<open>checkForDifferences\<close> looks at the keys of the
  saved copy only, answers \<^verbatim>\<open>false\<close>, and \<^verbatim>\<open>ngDoCheck\<close> rebuilds nothing.
\<close>

theorem ngDoCheck_misses_added_property:
  "spec_columns_differ (oldColumns ex_transform_added)
     [[(''name'', Str ''Name''), (''property'', Str ''name''), (''visible'', Bool True),
       (''formField'', Ref 3), (''transform'', Fun 0)],
      [(''name'', Str ''Age''), (''property'', Str ''age''), (''visible'', Bool True)]] \<and>
   columns ex_transform_added =
     Some [[(''name'', Str ''Name''), (''property'', Str ''name''), (''visible'', Bool True),
            (''formField'', Ref 3), (''transform'', Fun 0)],
           [(''name'', Str ''Age''), (''property'', Str ''age''), (''visible'', Bool True)]] \<and>
   checkForDifferences ex_transform_added = Inr False \<and>
   ngDoCheck ex_transform_added = Inr ex_transform_added"
proof -
  have d: "spec_columns_differ (oldColumns ex_transform_added)
     [[(''name'', Str ''Name''), (''property'', Str ''name''), (''visible'', Bool True),
       (''formField'', Ref 3), (''transform'', Fun 0)],
      [(''name'', Str ''Age''), (''property'', Str ''age''), (''visible'', Bool True)]]"
    by code_simp
  have c: "columns ex_transform_added =
     Some [[(''name'', Str ''Name''), (''property'', Str ''name''), (''visible'', Bool True),
            (''formField'', Ref 3), (''transform'', Fun 0)],
           [(''name'', Str ''Age''), (''property'', Str ''age''), (''visible'', Bool True)]]"
    by code_simp
  have n: "checkForDifferences ex_transform_added = Inr False"
    by code_simp
  from d c n ngDoCheck_unchanged [OF n] show ?thesis by blast
qed

theorem ngDoCheck_misses_added_property_witness:
  "checkForDifferences ex_transform_added = Inr False \<and>
   ngDoCheck ex_transform_added = Inr ex_transform_added"
  using ngDoCheck_misses_added_property by blast

subsection \<open>Rows with the status added\<close>

text \<open>
  The methods that do not write the row-status map, the effect on it of those that do,
  and the invariant: in every reachable state at most one row is marked \<^verbatim>\<open>added\<close>.
\<close>

lemma applyFilter_dataStatus:
  assumes "applyFilter fe v s = Inr s'"
  shows "dataStatus s' = dataStatus s"
proof (cases "dataSource s")
  case None
  with assms show ?thesis by (simp add: applyFilter_def)
next
  case (Some ds)
  with assms show ?thesis by (auto simp: applyFilter_def)
qed

lemma startAddElement_addedRows:
  assumes "startAddElement sortData s = Inr s'"
  shows "\<exists>ele. addedRows s' = [ele] \<and>
           map_of (dataStatus s') ele = Some \<lparr>editing = True, added = True\<rparr> \<and>
           currentlyAdding s'"
proof -
  from assms have "\<exists>ele s1 s2. cleanUpAfterDataChange sortData False s1 = Inr s2 \<and>
      s' = s2\<lparr>dataStatus :=
                       AList.update ele (new_DataStatus\<lparr>added := True, editing := True\<rparr>)
                         (dataStatus s2),
                    currentlyAdding := True\<rparr>"
    by (auto simp: startAddElement_def Let_def bindE_eq_Inr split: option.splits prod.splits)
  then obtain ele s1 s2 where
    c: "cleanUpAfterDataChange sortData False s1 = Inr s2"
    and s': "s' = s2\<lparr>dataStatus :=
                       AList.update ele (new_DataStatus\<lparr>added := True, editing := True\<rparr>)
                         (dataStatus s2),
                    currentlyAdding := True\<rparr>"
    by blast
  from cleanUpAfterDataChange_dataStatus [OF c] obtain arr where
    ds2: "dataStatus s2 = fold (\<lambda>d m. AList.update d new_DataStatus m) arr []"
    by blast
  have "\<forall>p\<in>set (dataStatus s2). \<not> added (snd p)"
    using fresh_fold_not_added [of arr] ds2 by (auto simp: filter_empty_conv)
  from update_only_added [OF this, of "new_DataStatus\<lparr>added := True, editing := True\<rparr>" ele]
  have "addedRows s' = [ele]"
    by (simp add: addedRows_def s')
  moreover have "map_of (dataStatus s') ele = Some \<lparr>editing = True, added = True\<rparr>"
    by (simp add: s' update_conv' new_DataStatus_def)
  ultimately show ?thesis by (auto simp: s')
qed

lemma ngOnChanges_addedRows:
  assumes "ngOnChanges sortData changes s = Inr s'"
  shows "addedRows s' = (if ch_data changes then [] else addedRows s)"
proof (cases "ch_data changes")
  case True
  with assms obtain s2 where "cleanUpAfterDataChange sortData (ch_columns changes) s2 = Inr s'"
    by (auto simp: ngOnChanges_def bindE_eq_Inr)
  from cleanUpAfterDataChange_dataStatus [OF this] fresh_fold_not_added True
  show ?thesis by (auto simp: addedRows_def)
next
  case False
  with assms show ?thesis by (simp add: ngOnChanges_def)
qed

lemma ngDoCheck_addedRows:
  assumes "ngDoCheck s = Inr s'"
  shows "addedRows s' = [] \<or> s' = s"
proof -
  from assms obtain differs where d: "checkForDifferences s = Inr differs"
    by (auto simp: ngDoCheck_def bindE_eq_Inr)
  show ?thesis
  proof (cases differs)
    case False
    with assms d show ?thesis by (simp add: ngDoCheck_def)
  next
    case True
    with assms d obtain s2 where "cleanUpAfterColChange s2 = Inr s'"
      by (auto simp: ngDoCheck_def bindE_eq_Inr)
    then have "dataStatus s' = map (\<lambda>(key, value). (key, new_DataStatus)) (dataStatus s2)"
      by (auto simp: cleanUpAfterColChange_def split: option.splits)
    then have "addedRows s' = []"
      by (auto simp: addedRows_def filter_empty_conv new_DataStatus_def)
    then show ?thesis by simp
  qed
qed

lemma startEditElement_addedRows:
  "length (addedRows (startEditElement element s)) = length (addedRows s)"
proof (cases "map_of (dataStatus s) element")
  case None
  then show ?thesis
    using update_new_not_added [OF None, of "new_DataStatus\<lparr>editing := True\<rparr>"]
    by (simp add: startEditElement_def addedRows_def new_DataStatus_def)
next
  case (Some st)
  then show ?thesis
    using update_same_flag [OF Some, of "st\<lparr>editing := True\<rparr>"]
    by (simp add: startEditElement_def addedRows_def)
qed

lemma cancelEditElement_addedRows:
  assumes "cancelEditElement element s = Inr s'"
  shows "length (addedRows s') = length (addedRows s)"
proof -
  from assms obtain st where st: "map_of (dataStatus s) element = Some st"
    and s': "s' = s\<lparr>dataStatus := AList.update element (st\<lparr>editing := False\<rparr>) (dataStatus s)\<rparr>"
    by (auto simp: cancelEditElement_def split: option.splits)
  from update_same_flag [OF st, of "st\<lparr>editing := False\<rparr>"] show ?thesis
    by (simp add: s' addedRows_def)
qed

lemma at_most_one_added:
  "reachable sortData s \<Longrightarrow> length (addedRows s) \<le> 1"
proof (induction rule: reachable.induct)
  case (constructed s)
  then show ?case by (simp add: addedRows_def)
next
  case (elsewhere s s')
  then show ?case by (simp add: addedRows_def)
next
  case (startAdd s s')
  from startAddElement_addedRows [OF startAdd.hyps(2)] show ?case by auto
next
  case (onChanges s changes s')
  from ngOnChanges_addedRows [OF onChanges.hyps(2)] onChanges.IH show ?case by (simp split: if_splits)
next
  case (doCheck s s')
  from ngDoCheck_addedRows [OF doCheck.hyps(2)] doCheck.IH show ?case by auto
next
  case (startEdit s element)
  then show ?case by (simp add: startEditElement_addedRows)
next
  case (cancelEdit s element s')
  from cancelEditElement_addedRows [OF cancelEdit.hyps(2)] cancelEdit.IH show ?case by simp
qed

text \<open>
  C5. A row (address 4) is pending after \<^verbatim>\<open>startAddElement\<close> when the host binds a new
  array of two rows (addresses 5 and 6) that does not contain it. \<^verbatim>\<open>clearAddedEntry\<close>
  looks the pending row up in the new array, gets \<open>-1\<close>, and \<^verbatim>\<open>splice(-1, 1)\<close> removes
  the last row of the new array instead: row 6 is gone from the host's data.
\<close>

theorem clearAddedEntry_removes_last_row:
  "(case startAddElement keep_order ex_addable of
      Inl e \<Rightarrow> False
    | Inr s1 \<Rightarrow>
        map fst (filter (\<lambda>p. added (snd p)) (dataStatus s1)) = [Ref 4] \<and>
        getArray (heap (host_binds_new_data s1)) (data (host_binds_new_data s1))
          = Inr [Ref 5, Ref 6] \<and>
        (case ngOnChanges keep_order \<lparr>ch_data = True, ch_columns = False\<rparr>
                (host_binds_new_data s1) of
           Inl e \<Rightarrow> False
         | Inr s2 \<Rightarrow>
             getArray (heap s2) (data s2) = Inr [Ref 5] \<and>
             map fst (dataStatus s2) = [Ref 5]))"
  by code_simp

subsection \<open>The fluent builder\<close>

text \<open>
  C9. Every setter of \<^verbatim>\<open>AbstractFormField\<close> returns its receiver, and
  \<^verbatim>\<open>withValidators\<close> stores the one-element array for a single validator: called with
  \<open>f\<close> or with \<open>[f]\<close> it leaves the same store, in which the receiver's validators
  are \<open>[f]\<close>.
\<close>

theorem fluent_builder_contract:
  "snd (withValidators vs this st) = this \<and>
   snd (withInit i this st) = this \<and>
   snd (withApply a this st) = this \<and>
   snd (withErrors es this st) = this \<and>
   snd (withPlaceholder p this st) = this \<and>
   snd (withHint t this st) = this \<and>
   fst (withValidators (VSingle f) this st) = fst (withValidators (VArray [f]) this st) \<and>
   (this < length st \<longrightarrow>
      validators (fst (withValidators (VSingle f) this st) ! this) = [f])"
  by (simp add: withValidators_def withInit_def withApply_def withErrors_def
      withPlaceholder_def withHint_def modify_def split: validators_arg.split)

theorem fluent_builder_contract_witness:
  "(0::nat) < length [new_AbstractFormField :: (nat, nat, nat, nat, nat) AbstractFormField] \<and>
   validators (fst (withValidators (VSingle (7::nat)) 0
      [new_AbstractFormField :: (nat, nat, nat, nat, nat) AbstractFormField]) ! 0) = [7]"
proof -
  have len: "(0::nat) < length [new_AbstractFormField :: (nat, nat, nat, nat, nat) AbstractFormField]"
    by simp
  from len fluent_builder_contract [where this = 0 and f = "7::nat"
      and st = "[new_AbstractFormField :: (nat, nat, nat, nat, nat) AbstractFormField]"]
  show ?thesis by blast
qed

end
